theory Spec2Isabelle
  imports Complex_Main
begin

section \<open>Identity validator\<close>

text \<open>
  The pattern language of the one regular expression the console uses: character classes
  given by ranges, literals, sequence, alternation and bounded repetition \<open>r{n}\<close>.
  \<open>rmatch r s\<close> lists the remainders of \<open>s\<close> after every way \<open>r\<close> can match a prefix
  of it, which is what a backtracking matcher explores.
\<close>

datatype regex = Cls "(char \<times> char) list" | Lit string | Seq regex regex | Alt regex regex | Rep nat regex

definition in_cls :: "(char \<times> char) list \<Rightarrow> char \<Rightarrow> bool" where
  "in_cls rs c = list_ex (\<lambda>(lo, hi). (of_char lo :: nat) \<le> of_char c \<and> (of_char c :: nat) \<le> of_char hi) rs"

definition match_cls :: "(char \<times> char) list \<Rightarrow> string \<Rightarrow> string list" where
  "match_cls rs s = (case s of [] \<Rightarrow> [] | c # cs \<Rightarrow> if in_cls rs c then [cs] else [])"

definition match_lit :: "string \<Rightarrow> string \<Rightarrow> string list" where
  "match_lit l s = (if take (length l) s = l then [drop (length l) s] else [])"

primrec match_times :: "nat \<Rightarrow> (string \<Rightarrow> string list) \<Rightarrow> string list \<Rightarrow> string list" where
  "match_times 0 f ss = ss"
| "match_times (Suc n) f ss = match_times n f (concat (map f ss))"

primrec rmatch :: "regex \<Rightarrow> string \<Rightarrow> string list" where
  "rmatch (Cls rs) = match_cls rs"
| "rmatch (Lit l) = match_lit l"
| "rmatch (Seq a b) = (\<lambda>s. concat (map (rmatch b) (rmatch a s)))"
| "rmatch (Alt a b) = (\<lambda>s. rmatch a s @ rmatch b s)"
| "rmatch (Rep n a) = (\<lambda>s. match_times n (rmatch a) [s])"

text \<open>\<open>/^(?:r)$/.test(s)\<close>: some match of \<open>r\<close> consumes the whole input.\<close>

definition regex_test :: "regex \<Rightarrow> string \<Rightarrow> bool" where
  "regex_test r s = list_ex (\<lambda>rest. rest = []) (rmatch r s)"

text \<open>\<open>isValidTagUid\<close>: \<open>/^(?:[a-z0-9]{10}|TAG_[a-z0-9]{8})$/.test(uid)\<close>.\<close>

definition lower_alnum_cls :: regex where
  "lower_alnum_cls = Cls [(CHR ''a'', CHR ''z''), (CHR ''0'', CHR ''9'')]"

definition tagUidPattern :: regex where
  "tagUidPattern = Alt (Rep 10 lower_alnum_cls) (Seq (Lit ''TAG_'') (Rep 8 lower_alnum_cls))"

definition isValidTagUid :: "string \<Rightarrow> bool" where
  "isValidTagUid uid = regex_test tagUidPattern uid"

text \<open>
  The specification's reading of the same rule: ten characters of \<open>[a-z0-9]\<close>, or
  \<open>TAG_\<close> followed by eight of them.
\<close>

definition lower_alnum :: "char \<Rightarrow> bool" where
  "lower_alnum c \<longleftrightarrow>
     ((97::nat) \<le> of_char c \<and> (of_char c :: nat) \<le> 122) \<or> ((48::nat) \<le> of_char c \<and> (of_char c :: nat) \<le> 57)"

definition spec_valid_uid :: "string \<Rightarrow> bool" where
  "spec_valid_uid uid \<longleftrightarrow>
     (length uid = 10 \<and> list_all lower_alnum uid) \<or>
     (length uid = 12 \<and> take 4 uid = ''TAG_'' \<and> list_all lower_alnum (drop 4 uid))"

text \<open>
  \<open>generateTagId\<close>. The argument \<open>rnd\<close> is the sequence of results of
  \<open>Math.random()\<close>, \<open>rnd i\<close> being the draw of loop round \<open>i\<close>. Indexing a string out
  of range yields \<open>undefined\<close>, which \<open>+=\<close> appends as the text \<open>undefined\<close>. The product
  \<open>Math.random() * alphabet.length\<close> is taken over the reals; the double product of a draw
  below 1 with 36 also stays below 36.
\<close>

definition alphabet :: string where
  "alphabet = ''abcdefghijklmnopqrstuvwxyz0123456789''"

definition str_index :: "string \<Rightarrow> int \<Rightarrow> string" where
  "str_index s k = (if 0 \<le> k \<and> nat k < length s then [s ! nat k] else ''undefined'')"

function tagIdLoop :: "(nat \<Rightarrow> real) \<Rightarrow> nat \<Rightarrow> string \<Rightarrow> string" where
  "tagIdLoop rnd i generated =
     (if i < 10
      then tagIdLoop rnd (i + 1) (generated @ str_index alphabet \<lfloor>rnd i * real (length alphabet)\<rfloor>)
      else generated)"
  by pat_completeness auto
termination
  by (relation "measure (\<lambda>(rnd, i, generated). 10 - i)") auto

definition generateTagId :: "(nat \<Rightarrow> real) \<Rightarrow> string" where
  "generateTagId rnd = tagIdLoop rnd 0 ''''"

section \<open>Strings and numbers of the host language\<close>

text \<open>
  Strings are lists of characters. \<open>a || b\<close> on strings yields \<open>a\<close> unless it is empty;
  an absent (\<open>undefined\<close>) string field is represented by the empty string, which every
  read in the modelled code treats alike. Numbers are integers (timestamps, step indices);
  \<open>num_str\<close> is their decimal rendering in a template literal.
\<close>

definition or_else :: "string \<Rightarrow> string \<Rightarrow> string" where
  "or_else a b = (if a \<noteq> '''' then a else b)"

function dec_digits :: "nat \<Rightarrow> string" where
  "dec_digits n =
     (if n < 10 then [''0123456789'' ! n]
      else dec_digits (n div 10) @ [''0123456789'' ! (n mod 10)])"
  by pat_completeness auto
termination
  by (relation "measure (\<lambda>n. n)") auto

declare dec_digits.simps [simp del]

definition num_str :: "int \<Rightarrow> string" where
  "num_str n = (if n < 0 then CHR ''-'' # dec_digits (nat (- n)) else dec_digits (nat n))"

function hex_digits :: "nat \<Rightarrow> string" where
  "hex_digits n =
     (if n < 16 then [''0123456789abcdef'' ! n]
      else hex_digits (n div 16) @ [''0123456789abcdef'' ! (n mod 16)])"
  by pat_completeness auto
termination
  by (relation "measure (\<lambda>n. n)") auto

declare hex_digits.simps [simp del]

definition padStart :: "nat \<Rightarrow> char \<Rightarrow> string \<Rightarrow> string" where
  "padStart n c s = replicate (n - length s) c @ s"

definition toUpperCase :: "string \<Rightarrow> string" where
  "toUpperCase s =
     map (\<lambda>c. if (97::nat) \<le> of_char c \<and> (of_char c :: nat) \<le> 122
              then char_of (of_char c - (32::nat)) else c) s"

fun join :: "string \<Rightarrow> string list \<Rightarrow> string" where
  "join sep [] = ''''"
| "join sep [x] = x"
| "join sep (x # y # ys) = x @ sep @ join sep (y # ys)"

text \<open>
  \<open>trim\<close> removes white space at both ends. The white-space characters within the
  8-bit range are the ASCII ones and the no-break space.
\<close>

definition js_space :: "char \<Rightarrow> bool" where
  "js_space c = ((of_char c :: nat) \<in> {9, 10, 11, 12, 13, 32, 160})"

definition trim :: "string \<Rightarrow> string" where
  "trim s = rev (dropWhile js_space (rev (dropWhile js_space s)))"

text \<open>
  \<open>generateHardwareUid\<close>: seven draws, each scaled to a byte and rendered as two
  upper-case hexadecimal digits, joined by colons.
\<close>

definition generateHardwareUid :: "(nat \<Rightarrow> real) \<Rightarrow> string" where
  "generateHardwareUid rnd =
     join '':'' (map (\<lambda>v. toUpperCase (padStart 2 (CHR ''0'') (hex_digits (nat v))))
                     (map (\<lambda>i. \<lfloor>rnd i * 256\<rfloor>) [0..<7]))"

section \<open>Scan events and their keys\<close>

text \<open>
  A scan event as the console reads it. The fields \<open>uid\<close> and \<open>at\<close> of the source are
  \<open>nfc_uid\<close> and \<open>nfc_at\<close> here; \<open>nfc_at\<close> is a number or absent. The status feed may name
  the hardware identifier \<open>hardwareUid\<close> or \<open>hardware_uid\<close>; \<open>getNfcKey\<close> reads both.

  The code reads \<open>known\<close> in two ways, as \<open>!known\<close> and as \<open>known === false\<close>, which differ
  on an event whose \<open>known\<close> is absent or \<open>null\<close>. So \<open>known\<close> is \<open>Some b\<close> for the boolean
  \<open>b\<close> and \<open>None\<close> when it is absent or \<open>null\<close>: \<open>!known\<close> holds unless it is \<open>Some True\<close>, and
  \<open>known === false\<close> holds only when it is \<open>Some False\<close>.
\<close>

record nfc_event =
  nfc_uid :: string
  known :: "bool option"
  hardwareUid :: string
  hardware_uid :: string
  nfc_at :: "int option"

text \<open>
  \<open>getNfcKey\<close>: the empty string for no event, otherwise \<open>`${at}:${uid}:${hardware}`\<close> with
  \<open>at = nfc.at || ''\<close>, \<open>uid = nfc.uid || ''\<close> and
  \<open>hardware = nfc.hardwareUid || nfc.hardware_uid || ''\<close>.
\<close>

definition getNfcKey :: "nfc_event option \<Rightarrow> string" where
  "getNfcKey nfc =
     (case nfc of
        None \<Rightarrow> ''''
      | Some e \<Rightarrow>
          (let at_part = (case nfc_at e of None \<Rightarrow> '''' | Some n \<Rightarrow> if n \<noteq> 0 then num_str n else '''');
               uid_part = or_else (nfc_uid e) '''';
               hardware = or_else (hardwareUid e) (or_else (hardware_uid e) '''')
           in at_part @ '':'' @ uid_part @ '':'' @ hardware))"

section \<open>Console state\<close>

datatype tag_state = NEW | WRITTEN | IMPORTED

record tag =
  tag_uid :: string
  tag_status :: tag_state
  tag_alias :: string
  tag_label :: string
  media_path :: string

record status_rec =
  last_nfc :: "nfc_event option"
  last_nfc_at :: "int option"

record hardware_info =
  hw_uid :: string
  hw_hardwareUid :: string

text \<open>
  The part of the component state of \<open>App\<close> that the provisioning code reads and writes:
  the \<open>useState\<close> cells, the two \<open>useRef\<close> cells holding keys, and the toasts shown so far.
\<close>

record app =
  selectedId :: string
  status :: "status_rec option"
  error :: string
  tags :: "tag list"
  boxTags :: "tag list"
  blockedByBox :: "string \<rightharpoonup> string list"
  scanTagUid :: string
  tagUidMode :: string
  tagUidError :: string
  tagStep :: int
  tagStepOneDone :: bool
  tagStepTwoDone :: bool
  tagStepMax :: int
  tagWizardRestoredRef :: string
  dismissedNfcKey :: string
  scanTagLabel :: string
  scanMediaPath :: string
  lastNfcKeyRef :: string
  lastHardwareUid :: hardware_info
  simulatedNfc :: "nfc_event option"
  toasts :: "(string \<times> string) list"

text \<open>The state after a page load: the initial values of the cells.\<close>

definition initialApp :: app where
  "initialApp =
     \<lparr>selectedId = '''', status = None, error = '''', tags = [], boxTags = [],
      blockedByBox = Map.empty, scanTagUid = '''', tagUidMode = ''keep'', tagUidError = '''',
      tagStep = 0, tagStepOneDone = False, tagStepTwoDone = False, tagStepMax = 0,
      tagWizardRestoredRef = '''', dismissedNfcKey = '''', scanTagLabel = '''',
      scanMediaPath = '''', lastNfcKeyRef = '''',
      lastHardwareUid = \<lparr>hw_uid = '''', hw_hardwareUid = ''''\<rparr>, simulatedNfc = None,
      toasts = []\<rparr>"

definition addToast :: "string \<Rightarrow> string \<Rightarrow> app \<Rightarrow> app" where
  "addToast type message st = st\<lparr>toasts := toasts st @ [(type, message)]\<rparr>"

text \<open>
  \<open>activeNfc\<close>: the event of the status feed when its \<open>known\<close> is \<open>false\<close>, stamped with
  \<open>last_nfc_at\<close>; otherwise the simulated event. \<open>activeNfcKey\<close> is its key.
\<close>

definition activeNfc :: "app \<Rightarrow> nfc_event option" where
  "activeNfc st =
     (case status st of
        None \<Rightarrow> simulatedNfc st
      | Some s \<Rightarrow>
          (case last_nfc s of
             None \<Rightarrow> simulatedNfc st
           | Some e \<Rightarrow> if known e = Some False then Some (e\<lparr>nfc_at := last_nfc_at s\<rparr>) else simulatedNfc st))"

definition activeNfcKey :: "app \<Rightarrow> string" where
  "activeNfcKey st = (case activeNfc st of None \<Rightarrow> '''' | Some e \<Rightarrow> getNfcKey (Some e))"

text \<open>
  The card of the wizard is part of the main view under the condition
  \<open>activeNfc && dismissedNfcKey !== getNfcKey(activeNfc)\<close>.
\<close>

definition wizardShown :: "app \<Rightarrow> bool" where
  "wizardShown st \<longleftrightarrow> activeNfc st \<noteq> None \<and> dismissedNfcKey st \<noteq> getNfcKey (activeNfc st)"

section \<open>The effect that reacts to a new scan event\<close>

text \<open>
  The effect on \<open>[status, tags]\<close>. It compares the key
  \<open>`${status?.last_nfc_at ?? ''}:${lastNfc.uid ?? ''}`\<close> with \<open>lastNfcKeyRef\<close>, and when they
  differ it records the key, resets the wizard to its first step and clears the dismissed
  key. The test of \<open>known\<close> is \<open>!lastNfc.known\<close>. The three characters between the two
  parts of the replacement notice are written as the eight bytes they have in the source
  file.
\<close>

definition autoReplaceMsg :: string where
  "autoReplaceMsg = ''Ungueltige ID erkannt ''
     @ [char_of (195::nat), char_of (162::nat), char_of (226::nat), char_of (130::nat),
        char_of (172::nat), char_of (226::nat), char_of (128::nat), char_of (156::nat)]
     @ '' wird automatisch ersetzt.''"

definition lastNfcKey :: "status_rec \<Rightarrow> nfc_event \<Rightarrow> string" where
  "lastNfcKey s e = (case last_nfc_at s of None \<Rightarrow> '''' | Some n \<Rightarrow> num_str n) @ '':'' @ nfc_uid e"

definition lastNfcEffect :: "(nat \<Rightarrow> real) \<Rightarrow> app \<Rightarrow> app" where
  "lastNfcEffect rnd st =
     (case status st of
        None \<Rightarrow> st
      | Some s \<Rightarrow>
          (case last_nfc s of
             None \<Rightarrow> st
           | Some lastNfc \<Rightarrow>
               if nfc_uid lastNfc = '''' then st
               else if known lastNfc \<noteq> Some True then
                 (let key = lastNfcKey s lastNfc in
                  if lastNfcKeyRef st = key then st
                  else
                    (let st1 = st\<lparr>lastNfcKeyRef := key, scanTagLabel := '''', scanMediaPath := ''''\<rparr>;
                         st2 = (if isValidTagUid (nfc_uid lastNfc)
                                then st1\<lparr>scanTagUid := nfc_uid lastNfc, tagUidMode := ''keep'',
                                         tagUidError := ''''\<rparr>
                                else st1\<lparr>scanTagUid := generateTagId rnd, tagUidMode := ''new'',
                                         tagUidError := autoReplaceMsg\<rparr>)
                     in st2\<lparr>dismissedNfcKey := '''', tagStep := 0, tagStepOneDone := False,
                            tagStepTwoDone := False, tagStepMax := 0\<rparr>))
               else st))"

text \<open>
  Touches whose identifiers split the same text differently between \<open>uid\<close> and
  \<open>hardwareUid\<close>, the status feed reporting an event at a time stamp, the states after the
  first and after the second touch have been handled, and an event that names its
  hardware identifier \<open>hardware_uid\<close>.
\<close>

definition touch_first :: nfc_event where
  "touch_first = \<lparr>nfc_uid = ''04'', known = Some False, hardwareUid = ''a1:b2'', hardware_uid = '''',
     nfc_at = None\<rparr>"

definition touch_second :: nfc_event where
  "touch_second = \<lparr>nfc_uid = ''04:a1'', known = Some False, hardwareUid = ''b2'', hardware_uid = '''',
     nfc_at = None\<rparr>"

definition touch_third :: nfc_event where
  "touch_third = \<lparr>nfc_uid = ''04'', known = Some False, hardwareUid = ''a1'', hardware_uid = '''',
     nfc_at = None\<rparr>"

definition feed :: "nfc_event \<Rightarrow> int \<Rightarrow> status_rec" where
  "feed e t = \<lparr>last_nfc = Some e, last_nfc_at = Some t\<rparr>"

definition after_first_touch :: app where
  "after_first_touch =
     lastNfcEffect (\<lambda>i. 0) (initialApp\<lparr>selectedId := ''box-42'', status := Some (feed touch_first 1)\<rparr>)"

definition after_second_touch :: app where
  "after_second_touch =
     lastNfcEffect (\<lambda>i. 0) (initialApp\<lparr>selectedId := ''box-42'', status := Some (feed touch_second 1)\<rparr>)"

definition snake_event :: "string \<Rightarrow> nfc_event" where
  "snake_event hw = \<lparr>nfc_uid = ''ab12cd34ef'', known = Some False, hardwareUid = '''', hardware_uid = hw,
     nfc_at = Some 1\<rparr>"

section \<open>The registry collaborator\<close>

text \<open>
  The calls of \<open>api.js\<close> that the provisioning code makes, and the part of a reply it
  reads: \<open>ok\<close>, \<open>data.detail\<close>, \<open>data.uid\<close> and \<open>data.tags\<close> (an absent text is empty, an
  absent list is empty). The payload of a box command is its \<open>uid\<close> entry, if any.
\<close>

datatype call =
    GetTags
  | ClaimTag string string
  | MarkTagWritten string
  | SetTagMedia string string
  | AssignTag string string
  | GetBoxTags string
  | SetTagBlock string string bool
  | SendCommand string string "string option"

record response =
  ok :: bool
  detail :: string
  data_uid :: string
  data_tags :: "tag list"

text \<open>
  The collaborator is any deterministic server: a state of its own and a function from
  a call to an answer and a next state. An answer is a reply, or \<open>None\<close> when the call
  throws: \<open>fetch\<close> rejects when the request cannot be made or answered, \<open>readJson\<close> catches
  only what \<open>JSON.parse\<close> throws, and a reply whose body is \<open>null\<close> throws when \<open>data\<close> is
  first read, before any cell is updated. \<open>sent\<close> lists the calls made so far, in order.
  Each call is awaited before the next statement runs, so a handler is a sequence of
  requests.
\<close>

type_synonym 'b server = "'b \<Rightarrow> call \<Rightarrow> response option \<times> 'b"

record 'b net =
  backend :: 'b
  sent :: "call list"

definition request :: "'b server \<Rightarrow> call \<Rightarrow> 'b net \<Rightarrow> response option \<times> 'b net" where
  "request srv c n = (case srv (backend n) c of (r, b) \<Rightarrow> (r, n\<lparr>backend := b, sent := sent n @ [c]\<rparr>))"

text \<open>
  No handler of the console catches an exception. A handler therefore either returns or
  throws at the call that threw; the updates queued before that call are kept, and
  nothing after it runs. \<open>outcome\<close> is the state and the network a handler leaves behind.
\<close>

datatype 'w completion = Returned 'w | Thrown 'w

definition outcome :: "'w completion \<Rightarrow> 'w" where
  "outcome c = (case c of Returned w \<Rightarrow> w | Thrown w \<Rightarrow> w)"

text \<open>
  Servers without state: \<open>refusing bad\<close> answers the calls in \<open>bad\<close> with a reply that is
  not ok and accepts every other call; \<open>failing bad\<close> lets the calls in \<open>bad\<close> throw and
  accepts every other call.
\<close>

definition okReply :: "call \<Rightarrow> response" where
  "okReply c =
     \<lparr>ok = True, detail = '''', data_uid = (case c of ClaimTag u l \<Rightarrow> u | _ \<Rightarrow> ''''),
      data_tags = []\<rparr>"

definition refusing :: "(call \<Rightarrow> bool) \<Rightarrow> unit server" where
  "refusing bad b c =
     (Some (if bad c then (okReply c)\<lparr>ok := False, detail := ''refused''\<rparr> else okReply c), b)"

definition failing :: "(call \<Rightarrow> bool) \<Rightarrow> unit server" where
  "failing bad b c = (if bad c then None else Some (okReply c), b)"

definition idle :: "unit net" where
  "idle = \<lparr>backend = (), sent = []\<rparr>"

section \<open>The block matrix\<close>

text \<open>
  A \<open>Set\<close> built from an array keeps the first occurrence of each element in insertion
  order; \<open>add\<close> appends an element that is not yet there and \<open>delete\<close> removes it.
\<close>

definition set_add :: "string list \<Rightarrow> string \<Rightarrow> string list" where
  "set_add s x = (if x \<in> set s then s else s @ [x])"

definition set_delete :: "string list \<Rightarrow> string \<Rightarrow> string list" where
  "set_delete s x = filter (\<lambda>y. y \<noteq> x) s"

definition new_Set :: "string list \<Rightarrow> string list" where
  "new_Set xs = foldl set_add [] xs"

text \<open>
  \<open>handleToggleTagBlock\<close>: the call is awaited first; a refusal is reported and the
  handler returns; otherwise the entry of \<open>boxId\<close> is rebuilt from the previous state.
\<close>

definition handleToggleTagBlock ::
  "'b server \<Rightarrow> string \<Rightarrow> string \<Rightarrow> bool \<Rightarrow> app \<times> 'b net \<Rightarrow> (app \<times> 'b net) completion" where
  "handleToggleTagBlock srv boxId uid nextBlocked w =
     (case w of (st, n) \<Rightarrow>
        (case request srv (SetTagBlock boxId uid nextBlocked) n of
           (None, n1) \<Rightarrow> Thrown (st, n1)
         | (Some response, n1) \<Rightarrow>
             if \<not> ok response then
               Returned (addToast ''error'' (or_else (detail response) ''Tag-Sperre fehlgeschlagen.'') st, n1)
             else
               (let prev = blockedByBox st;
                    current = new_Set (case prev boxId of None \<Rightarrow> [] | Some xs \<Rightarrow> xs);
                    current1 = (if nextBlocked then set_add current uid else set_delete current uid);
                    st1 = st\<lparr>blockedByBox := prev(boxId \<mapsto> current1)\<rparr>
                in Returned
                     (addToast ''success'' (if nextBlocked then ''Tag gesperrt.'' else ''Tag freigegeben.'') st1,
                      n1))))"

text \<open>The block set of a box as the matrix shows it: \<open>blockedByBox[boxId] || []\<close>.\<close>

definition blockSet :: "app \<Rightarrow> string \<Rightarrow> string set" where
  "blockSet st boxId = (case blockedByBox st boxId of None \<Rightarrow> {} | Some xs \<Rightarrow> set xs)"

text \<open>A state in which box \<open>box-42\<close> blocks one tag.\<close>

definition blocked_example :: app where
  "blocked_example = initialApp\<lparr>blockedByBox := [''box-42'' \<mapsto> [''zz99zz99zz'']]\<rparr>"

section \<open>Committing the wizard\<close>

text \<open>
  A handler reads the cells of the render in which it was created (\<open>cl\<close>, the closure) and
  queues updates that apply in order to the current state (\<open>st\<close>). \<open>now\<close> is the value of
  \<open>Date.now()\<close>.
\<close>

definition emptyHardware :: hardware_info where
  "emptyHardware = \<lparr>hw_uid = '''', hw_hardwareUid = ''''\<rparr>"

definition invalidUidMsg :: string where
  "invalidUidMsg = ''UID ungueltig. Bitte 10 Zeichen (a-z, 0-9) oder TAG_ + 8 Zeichen verwenden.''"

text \<open>\<open>setError(m); addToast('error', m)\<close>.\<close>

definition reportError :: "string \<Rightarrow> app \<Rightarrow> app" where
  "reportError m st = addToast ''error'' m (st\<lparr>error := m\<rparr>)"

text \<open>
  \<open>handlePlayerCommand\<close>. For \<open>nfc_on\<close> and \<open>nfc_off\<close> the uid of the payload is trimmed;
  without a uid the command only changes the simulated event and nothing is sent. The
  reply of \<open>sendCommand\<close> is not read.
\<close>

definition handlePlayerCommand ::
  "'b server \<Rightarrow> (nat \<Rightarrow> real) \<Rightarrow> int \<Rightarrow> app \<Rightarrow> string \<Rightarrow> string option \<Rightarrow> app \<times> 'b net
     \<Rightarrow> (app \<times> 'b net) completion" where
  "handlePlayerCommand srv rnd now cl command payload_uid w =
     (case w of (st, n) \<Rightarrow>
        if selectedId cl = '''' then Returned (st, n)
        else if command = ''nfc_on'' \<or> command = ''nfc_off'' then
          (let uid = (case payload_uid of None \<Rightarrow> '''' | Some u \<Rightarrow> trim u) in
           if uid = '''' then
             (if command = ''nfc_on'' then
                Returned
                  (st\<lparr>simulatedNfc :=
                         Some \<lparr>nfc_uid = '''', known = Some False, hardwareUid = generateHardwareUid rnd,
                               hardware_uid = '''', nfc_at = Some now\<rparr>,
                       scanTagLabel := '''', scanMediaPath := '''',
                       scanTagUid := (if scanTagUid cl = '''' then generateTagId (\<lambda>i. rnd (i + 7))
                                      else scanTagUid st),
                       tagUidMode := ''new'', tagStep := 0, tagStepOneDone := False,
                       tagStepTwoDone := False, tagStepMax := 0\<rparr>, n)
              else
                Returned
                  (st\<lparr>simulatedNfc := None, scanTagUid := '''', scanTagLabel := '''',
                       scanMediaPath := '''', lastHardwareUid := emptyHardware, tagUidMode := ''keep'',
                       tagStep := 0, tagStepOneDone := False, tagStepTwoDone := False,
                       tagStepMax := 0\<rparr>, n))
           else
             (let st1 = (if command = ''nfc_on''
                         then st\<lparr>lastHardwareUid :=
                                   \<lparr>hw_uid = uid, hw_hardwareUid = generateHardwareUid rnd\<rparr>,
                                 simulatedNfc := None\<rparr>
                         else st)
              in case request srv (SendCommand (selectedId cl) command (Some uid)) n of
                   (None, n1) \<Rightarrow> Thrown (st1, n1)
                 | (Some r, n1) \<Rightarrow> Returned (st1, n1)))
        else
          (case request srv (SendCommand (selectedId cl) command payload_uid) n of
             (None, n1) \<Rightarrow> Thrown (st, n1)
           | (Some r, n1) \<Rightarrow> Returned (st, n1)))"

text \<open>
  \<open>handleClaimTagForScan\<close>, in the three parts of its body. A part yields \<open>Inl\<close> when the
  handler ends inside it, by a \<open>return\<close> or by a call that throws, and \<open>Inr\<close> when control
  reaches the next part.

  First part: the working uid is written. A tag that exists with status \<open>NEW\<close> is marked
  written, a tag that exists with another status is left alone, and a tag that does
  not exist is claimed.
\<close>

definition currentUid :: "app \<Rightarrow> string" where
  "currentUid cl = trim (scanTagUid cl)"

definition writeFailed :: "response \<Rightarrow> app \<Rightarrow> app" where
  "writeFailed r st =
     (if detail r = ''invalid uid'' then st\<lparr>tagUidError := invalidUidMsg\<rparr>
      else reportError (or_else (detail r) ''Tag schreiben fehlgeschlagen.'') st)"

definition claimWriteStep ::
  "'b server \<Rightarrow> app \<Rightarrow> app \<times> 'b net \<Rightarrow> (app \<times> 'b net) completion + (app \<times> 'b net)" where
  "claimWriteStep srv cl w =
     (case w of (st, n) \<Rightarrow>
        (case find (\<lambda>t. tag_uid t = currentUid cl) (tags cl) of
           Some existing \<Rightarrow>
             if tag_status existing = NEW then
               (case request srv (MarkTagWritten (currentUid cl)) n of
                  (None, n1) \<Rightarrow> Inl (Thrown (st, n1))
                | (Some written, n1) \<Rightarrow>
                    if \<not> ok written then Inl (Returned (writeFailed written st, n1)) else Inr (st, n1))
             else Inr (st, n)
         | None \<Rightarrow>
             (case request srv (ClaimTag (currentUid cl) (trim (scanTagLabel cl))) n of
                (None, n1) \<Rightarrow> Inl (Thrown (st, n1))
              | (Some response, n1) \<Rightarrow>
                  if \<not> ok response then Inl (Returned (writeFailed response st, n1))
                  else Inr (st\<lparr>scanTagUid := data_uid response\<rparr>, n1))))"

text \<open>
  Second part: success of the write is reported and the event dismissed; then, for an
  event of the selected box whose \<open>known\<close> is \<open>false\<close> and with a media folder chosen, the
  folder is set and the tag assigned, and the reader is told to recognise the uid when
  \<open>known\<close> of the active event is \<open>false\<close>.
\<close>

definition lastNfcUnknown :: "app \<Rightarrow> bool" where
  "lastNfcUnknown cl =
     (case status cl of
        None \<Rightarrow> False
      | Some s \<Rightarrow> (case last_nfc s of None \<Rightarrow> False | Some e \<Rightarrow> known e = Some False))"

definition shouldAssign :: "app \<Rightarrow> bool" where
  "shouldAssign cl \<longleftrightarrow> selectedId cl \<noteq> '''' \<and> lastNfcUnknown cl \<and> scanMediaPath cl \<noteq> ''''"

definition activeNfcUnknown :: "app \<Rightarrow> bool" where
  "activeNfcUnknown cl = (case activeNfc cl of None \<Rightarrow> False | Some e \<Rightarrow> known e = Some False)"

text \<open>
  \<open>assignedStep\<close> is the end of the assignment, after both calls were accepted: the
  command to the reader is awaited, so when it throws the cells of the wizard are not
  cleared.
\<close>

definition assignedStep ::
  "'b server \<Rightarrow> (nat \<Rightarrow> real) \<Rightarrow> int \<Rightarrow> app \<Rightarrow> app \<times> 'b net \<Rightarrow> (app \<times> 'b net) completion + (app \<times> 'b net)" where
  "assignedStep srv rnd now cl w =
     (case w of (st, n) \<Rightarrow>
        (case (if activeNfcUnknown cl
               then handlePlayerCommand srv rnd now cl ''nfc_on'' (Some (currentUid cl))
                      (addToast ''success'' ''Tag zugeordnet.'' st, n)
               else Returned (addToast ''success'' ''Tag zugeordnet.'' st, n)) of
           Thrown w1 \<Rightarrow> Inl (Thrown w1)
         | Returned (st1, n1) \<Rightarrow>
             Inr (st1\<lparr>scanTagUid := '''', scanTagLabel := '''', scanMediaPath := '''',
                       simulatedNfc := None, lastHardwareUid := emptyHardware\<rparr>, n1)))"

definition claimAssignStep ::
  "'b server \<Rightarrow> (nat \<Rightarrow> real) \<Rightarrow> int \<Rightarrow> app \<Rightarrow> app \<times> 'b net \<Rightarrow> (app \<times> 'b net) completion + (app \<times> 'b net)" where
  "claimAssignStep srv rnd now cl w =
     (case w of (st, n) \<Rightarrow>
        (let st1 = addToast ''success'' ''Tag geschrieben.'' (st\<lparr>error := ''''\<rparr>);
             st2 = (case activeNfc cl of
                      None \<Rightarrow> st1
                    | Some e \<Rightarrow> st1\<lparr>dismissedNfcKey := getNfcKey (Some e)\<rparr>)
         in if shouldAssign cl then
              (case request srv (SetTagMedia (currentUid cl) (scanMediaPath cl)) n of
                 (None, n1) \<Rightarrow> Inl (Thrown (st2, n1))
               | (Some mediaSet, n1) \<Rightarrow>
                   if \<not> ok mediaSet then
                     Inl (Returned (reportError (or_else (detail mediaSet) ''Medium setzen fehlgeschlagen.'') st2, n1))
                   else
                     (case request srv (AssignTag (currentUid cl) (selectedId cl)) n1 of
                        (None, n2) \<Rightarrow> Inl (Thrown (st2, n2))
                      | (Some assigned, n2) \<Rightarrow>
                          if \<not> ok assigned then
                            Inl (Returned (reportError (or_else (detail assigned) ''Zuordnung fehlgeschlagen.'') st2, n2))
                          else assignedStep srv rnd now cl (st2, n2)))
            else if selectedId cl \<noteq> '''' \<and> lastNfcUnknown cl then
              Inr (addToast ''success'' ''Tag gespeichert. Medium fehlt noch.'' st2
                     \<lparr>simulatedNfc := None, lastHardwareUid := emptyHardware\<rparr>, n)
            else Inr (st2, n)))"

text \<open>
  Third part: the tag list and the tags of the selected box are read again. A reply
  that is not ok is ignored.
\<close>

definition claimRefreshStep :: "'b server \<Rightarrow> app \<Rightarrow> app \<times> 'b net \<Rightarrow> (app \<times> 'b net) completion" where
  "claimRefreshStep srv cl w =
     (case w of (st, n) \<Rightarrow>
        (case request srv GetTags n of
           (None, n1) \<Rightarrow> Thrown (st, n1)
         | (Some updated, n1) \<Rightarrow>
             (let st1 = (if ok updated then st\<lparr>tags := data_tags updated\<rparr> else st) in
              if selectedId cl \<noteq> '''' then
                (case request srv (GetBoxTags (selectedId cl)) n1 of
                   (None, n2) \<Rightarrow> Thrown (st1, n2)
                 | (Some updatedBoxTags, n2) \<Rightarrow>
                     Returned (if ok updatedBoxTags then st1\<lparr>boxTags := data_tags updatedBoxTags\<rparr> else st1, n2))
              else Returned (st1, n1))))"

definition handleClaimTagForScan ::
  "'b server \<Rightarrow> (nat \<Rightarrow> real) \<Rightarrow> int \<Rightarrow> app \<times> 'b net \<Rightarrow> (app \<times> 'b net) completion" where
  "handleClaimTagForScan srv rnd now w =
     (case w of (cl, n) \<Rightarrow>
        (case claimWriteStep srv cl (cl\<lparr>tagUidError := ''''\<rparr>, n) of
           Inl c \<Rightarrow> c
         | Inr w1 \<Rightarrow>
             (case claimAssignStep srv rnd now cl w1 of
                Inl c \<Rightarrow> c
              | Inr w2 \<Rightarrow> claimRefreshStep srv cl w2)))"

text \<open>The calls that create a tag or advance its status.\<close>

fun status_changing :: "call \<Rightarrow> bool" where
  "status_changing (ClaimTag u l) = True"
| "status_changing (MarkTagWritten u) = True"
| "status_changing c = False"

text \<open>
  The scenario of a commit: box \<open>box-42\<close> reports an unknown tag with a physical uid, the
  operator has chosen a label and a media folder, and the registry may already hold the
  tag.
\<close>

definition story_event :: nfc_event where
  "story_event = \<lparr>nfc_uid = ''zz99zz99zz'', known = Some False, hardwareUid = ''04:A1:B2:C3'',
     hardware_uid = '''', nfc_at = None\<rparr>"

definition story :: app where
  "story = initialApp\<lparr>selectedId := ''box-42'', status := Some (feed story_event 7),
     scanTagUid := ''zz99zz99zz'', scanTagLabel := ''Story Time'',
     scanMediaPath := ''audiobooks/grimm'', tagStep := 2, tagStepOneDone := True,
     tagStepTwoDone := True, tagStepMax := 2\<rparr>"

definition written_tag :: tag where
  "written_tag = \<lparr>tag_uid = ''zz99zz99zz'', tag_status = WRITTEN, tag_alias = '''',
     tag_label = ''Story Time'', media_path = ''''\<rparr>"

text \<open>
  The assignment sub-step succeeds in a commit when the write part does not end the
  handler, the assignment is due, and both \<open>setTagMedia\<close> and \<open>assignTag\<close> are answered with
  a reply that is ok.
\<close>

definition assignmentSucceeded :: "'b server \<Rightarrow> app \<Rightarrow> 'b net \<Rightarrow> bool" where
  "assignmentSucceeded srv cl n =
     (case claimWriteStep srv cl (cl\<lparr>tagUidError := ''''\<rparr>, n) of
        Inl c \<Rightarrow> False
      | Inr (st1, n1) \<Rightarrow>
          shouldAssign cl \<and>
          (case request srv (SetTagMedia (currentUid cl) (scanMediaPath cl)) n1 of
             (None, n2) \<Rightarrow> False
           | (Some mediaSet, n2) \<Rightarrow>
               ok mediaSet \<and>
               (case fst (request srv (AssignTag (currentUid cl) (selectedId cl)) n2) of
                  None \<Rightarrow> False
                | Some assigned \<Rightarrow> ok assigned)))"



section \<open>Session recovery\<close>

text \<open>
  The wizard session is kept in \<open>sessionStorage\<close> as JSON text. The store is modelled
  after parsing: an entry is the value \<open>JSON.parse\<close> returns for it, or \<open>None\<close> when the text
  is empty or does not parse (the effect returns in both cases). Objects list each key
  once. \<open>JSON.stringify\<close> followed by \<open>JSON.parse\<close> returns strings, booleans, integers,
  \<open>null\<close> and objects of them unchanged, so writing stores the value itself.
\<close>

datatype json = JNull | JBool bool | JNum int | JStr string | JObj "(string \<times> json) list"

type_synonym storage = "string \<rightharpoonup> json option"

text \<open>Reading a property (\<open>None\<close> is \<open>undefined\<close>), truthiness, and \<open>typeof\<close> tests.\<close>

definition get_prop :: "json \<Rightarrow> string \<Rightarrow> json option" where
  "get_prop j k = (case j of JObj kvs \<Rightarrow> map_of kvs k | _ \<Rightarrow> None)"

fun truthy :: "json option \<Rightarrow> bool" where
  "truthy None = False"
| "truthy (Some JNull) = False"
| "truthy (Some (JBool b)) = b"
| "truthy (Some (JNum n)) = (n \<noteq> 0)"
| "truthy (Some (JStr s)) = (s \<noteq> '''')"
| "truthy (Some (JObj kvs)) = True"

definition str_prop :: "json \<Rightarrow> string \<Rightarrow> string" where
  "str_prop j k = (case get_prop j k of Some (JStr s) \<Rightarrow> s | _ \<Rightarrow> '''')"

text \<open>
  The two nested objects of a session. Decoding reads the fields the console writes.
  \<open>JSON.stringify\<close> leaves out a \<open>known\<close> that is absent; a stored \<open>known\<close> that is no
  boolean is read back as \<open>Some True\<close> when it is truthy and as \<open>None\<close> otherwise, which
  keeps both tests of \<open>known\<close>.
\<close>

definition hardware_json :: "hardware_info \<Rightarrow> json" where
  "hardware_json h = JObj [(''uid'', JStr (hw_uid h)), (''hardwareUid'', JStr (hw_hardwareUid h))]"

definition hardware_of_json :: "json \<Rightarrow> hardware_info" where
  "hardware_of_json j = \<lparr>hw_uid = str_prop j ''uid'', hw_hardwareUid = str_prop j ''hardwareUid''\<rparr>"

definition nfc_json :: "nfc_event \<Rightarrow> json" where
  "nfc_json e =
     JObj ([(''uid'', JStr (nfc_uid e))]
           @ (case known e of None \<Rightarrow> [] | Some b \<Rightarrow> [(''known'', JBool b)])
           @ [(''hardwareUid'', JStr (hardwareUid e))]
           @ (if hardware_uid e = '''' then [] else [(''hardware_uid'', JStr (hardware_uid e))])
           @ (case nfc_at e of None \<Rightarrow> [] | Some t \<Rightarrow> [(''at'', JNum t)]))"

definition nfc_of_json :: "json \<Rightarrow> nfc_event" where
  "nfc_of_json j =
     \<lparr>nfc_uid = str_prop j ''uid'',
      known = (case get_prop j ''known'' of
                 Some (JBool b) \<Rightarrow> Some b
               | v \<Rightarrow> if truthy v then Some True else None),
      hardwareUid = str_prop j ''hardwareUid'',
      hardware_uid = str_prop j ''hardware_uid'',
      nfc_at = (case get_prop j ''at'' of Some (JNum t) \<Rightarrow> Some t | _ \<Rightarrow> None)\<rparr>"

text \<open>
  The persist effect: with an active key it writes \<open>{key, data}\<close> under
  \<open>klangkiste_tag_wizard\<close>. \<open>accepted\<close> tells whether the browser takes the write; a
  refused write is caught and ignored.
\<close>

definition sessionData :: "app \<Rightarrow> json" where
  "sessionData st =
     JObj [(''scanTagUid'', JStr (scanTagUid st)),
           (''scanTagLabel'', JStr (scanTagLabel st)),
           (''scanMediaPath'', JStr (scanMediaPath st)),
           (''tagUidMode'', JStr (tagUidMode st)),
           (''tagStep'', JNum (tagStep st)),
           (''tagStepOneDone'', JBool (tagStepOneDone st)),
           (''tagStepTwoDone'', JBool (tagStepTwoDone st)),
           (''tagStepMax'', JNum (tagStepMax st)),
           (''tagUidError'', JStr (tagUidError st)),
           (''lastHardwareUid'', hardware_json (lastHardwareUid st)),
           (''simulatedNfc'', (case simulatedNfc st of None \<Rightarrow> JNull | Some e \<Rightarrow> nfc_json e)),
           (''dismissedNfcKey'', JStr (dismissedNfcKey st))]"

definition sessionPayload :: "app \<Rightarrow> json" where
  "sessionPayload st = JObj [(''key'', JStr (activeNfcKey st)), (''data'', sessionData st)]"

definition persistEffect :: "bool \<Rightarrow> app \<Rightarrow> storage \<Rightarrow> storage" where
  "persistEffect accepted st sto =
     (if activeNfcKey st = '''' then sto
      else if accepted then sto(''klangkiste_tag_wizard'' \<mapsto> Some (sessionPayload st))
      else sto)"

text \<open>
  The restore effect: with an active key that has not been restored yet, it reads the
  stored session, ignores it unless its key is the active key, and otherwise sets each
  cell whose stored value has the expected type, then remembers the key. The first two
  definitions are \<open>if (typeof v === 'string') set(v)\<close> and its counterpart for numbers.
\<close>

definition restoreString :: "json option \<Rightarrow> (string \<Rightarrow> app \<Rightarrow> app) \<Rightarrow> app \<Rightarrow> app" where
  "restoreString v set_cell st = (case v of Some (JStr s) \<Rightarrow> set_cell s st | _ \<Rightarrow> st)"

definition restoreNumber :: "json option \<Rightarrow> (int \<Rightarrow> app \<Rightarrow> app) \<Rightarrow> app \<Rightarrow> app" where
  "restoreNumber v set_cell st = (case v of Some (JNum i) \<Rightarrow> set_cell i st | _ \<Rightarrow> st)"

definition restoreLastHardwareUid :: "json option \<Rightarrow> app \<Rightarrow> app" where
  "restoreLastHardwareUid v st =
     (case v of
        None \<Rightarrow> st
      | Some h \<Rightarrow>
          if truthy (get_prop h ''uid'') \<or> truthy (get_prop h ''hardwareUid'')
          then st\<lparr>lastHardwareUid := hardware_of_json h\<rparr> else st)"

definition restoreSimulatedNfc :: "app \<Rightarrow> json option \<Rightarrow> app \<Rightarrow> app" where
  "restoreSimulatedNfc cl v st =
     (if (case status cl of None \<Rightarrow> True | Some s \<Rightarrow> last_nfc s = None) \<and> truthy v
      then st\<lparr>simulatedNfc := Some (nfc_of_json (the v))\<rparr> else st)"

definition restoreEffect :: "storage \<Rightarrow> app \<Rightarrow> app" where
  "restoreEffect sto st =
     (if activeNfcKey st = '''' then st
      else if tagWizardRestoredRef st = activeNfcKey st then st
      else
        (case sto ''klangkiste_tag_wizard'' of
           None \<Rightarrow> st
         | Some None \<Rightarrow> st
         | Some (Some parsed) \<Rightarrow>
             if \<not> truthy (Some parsed) \<or> get_prop parsed ''key'' \<noteq> Some (JStr (activeNfcKey st)) then st
             else
               (let data = (if truthy (get_prop parsed ''data'') then the (get_prop parsed ''data'')
                            else JObj []);
                    st1 = restoreString (get_prop data ''scanTagUid'') (\<lambda>v x. x\<lparr>scanTagUid := v\<rparr>) st;
                    st2 = restoreString (get_prop data ''scanTagLabel'') (\<lambda>v x. x\<lparr>scanTagLabel := v\<rparr>) st1;
                    st3 = restoreString (get_prop data ''scanMediaPath'') (\<lambda>v x. x\<lparr>scanMediaPath := v\<rparr>) st2;
                    st4 = restoreString (get_prop data ''tagUidMode'') (\<lambda>v x. x\<lparr>tagUidMode := v\<rparr>) st3;
                    st5 = restoreNumber (get_prop data ''tagStep'') (\<lambda>v x. x\<lparr>tagStep := v\<rparr>) st4;
                    st6 = st5\<lparr>tagStepOneDone := truthy (get_prop data ''tagStepOneDone'')\<rparr>;
                    st7 = st6\<lparr>tagStepTwoDone := truthy (get_prop data ''tagStepTwoDone'')\<rparr>;
                    st8 = restoreNumber (get_prop data ''tagStepMax'') (\<lambda>v x. x\<lparr>tagStepMax := v\<rparr>) st7;
                    st9 = restoreString (get_prop data ''tagUidError'') (\<lambda>v x. x\<lparr>tagUidError := v\<rparr>) st8;
                    st10 = restoreLastHardwareUid (get_prop data ''lastHardwareUid'') st9;
                    st11 = restoreSimulatedNfc st (get_prop data ''simulatedNfc'') st10;
                    st12 = restoreString (get_prop data ''dismissedNfcKey'')
                             (\<lambda>v x. x\<lparr>dismissedNfcKey := v\<rparr>) st11
                in st12\<lparr>tagWizardRestoredRef := activeNfcKey st\<rparr>)))"

section \<open>Properties of the identity validator\<close>

lemma in_cls_lower_alnum: "in_cls [(CHR ''a'', CHR ''z''), (CHR ''0'', CHR ''9'')] c = lower_alnum c"
  by (simp add: in_cls_def lower_alnum_def)

lemma match_times_Nil: "match_times n f [] = []"
  by (induction n) simp_all

lemma match_times_cls:
  "match_times n (match_cls rs) [s] =
     (if n \<le> length s \<and> list_all (in_cls rs) (take n s) then [drop n s] else [])"
proof (induction n arbitrary: s)
  case 0
  show ?case by simp
next
  case (Suc n)
  show ?case
  proof (cases s)
    case Nil
    then show ?thesis by (simp add: match_cls_def match_times_Nil)
  next
    case (Cons c cs)
    then show ?thesis using Suc.IH [of cs]
      by (simp add: match_cls_def match_times_Nil)
  qed
qed

lemma rmatch_rep_alnum:
  "rmatch (Rep n lower_alnum_cls) s =
     (if n \<le> length s \<and> list_all lower_alnum (take n s) then [drop n s] else [])"
proof -
  have "in_cls [(CHR ''a'', CHR ''z''), (CHR ''0'', CHR ''9'')] = lower_alnum"
    by (rule ext) (rule in_cls_lower_alnum)
  then show ?thesis
    by (simp add: lower_alnum_cls_def match_times_cls)
qed

lemma isValidTagUid_iff: "isValidTagUid uid = spec_valid_uid uid"
proof -
  have a: "regex_test (Rep 10 lower_alnum_cls) uid \<longleftrightarrow> length uid = 10 \<and> list_all lower_alnum uid"
    unfolding regex_test_def rmatch_rep_alnum by auto
  have "rmatch (Seq (Lit ''TAG_'') (Rep 8 lower_alnum_cls)) uid =
      (if take 4 uid = ''TAG_'' then rmatch (Rep 8 lower_alnum_cls) (drop 4 uid) else [])"
  proof -
    have l: "length ''TAG_'' = 4" by simp
    show ?thesis
      by (simp only: rmatch.simps(2,3) match_lit_def l) (simp del: rmatch.simps(5))
  qed
  then have b: "regex_test (Seq (Lit ''TAG_'') (Rep 8 lower_alnum_cls)) uid \<longleftrightarrow>
      length uid = 12 \<and> take 4 uid = ''TAG_'' \<and> list_all lower_alnum (drop 4 uid)"
    unfolding regex_test_def rmatch_rep_alnum by auto
  have c: "regex_test (Alt p q) uid \<longleftrightarrow> regex_test p uid \<or> regex_test q uid" for p q
    by (simp add: regex_test_def)
  show ?thesis
    by (simp add: isValidTagUid_def tagUidPattern_def c a b spec_valid_uid_def)
qed

lemma alphabet_lower_alnum: "list_all lower_alnum alphabet"
  by (simp add: alphabet_def lower_alnum_def)

lemma char_in_range:
  assumes "(lo::nat) \<le> of_char c" "(of_char c :: nat) \<le> hi"
  shows "c \<in> char_of ` {lo..hi}"
proof -
  have "c = char_of (of_char c :: nat)" by simp
  with assms show ?thesis by (metis atLeastAtMost_iff imageI)
qed

lemma lower_alnum_alphabet: "lower_alnum c \<longleftrightarrow> c \<in> set alphabet"
proof
  assume "c \<in> set alphabet"
  then show "lower_alnum c"
    using alphabet_lower_alnum by (simp add: list_all_iff)
next
  assume "lower_alnum c"
  then have "c \<in> char_of ` {97..122::nat} \<or> c \<in> char_of ` {48..57::nat}"
    unfolding lower_alnum_def using char_in_range by blast
  moreover have "{97..122::nat} = {97..<123}" "{48..57::nat} = {48..<58}"
    by (simp_all only: set_eq_iff atLeastAtMost_iff atLeastLessThan_iff) presburger+
  then have "{97..122::nat} = set [97..<123]" "{48..57::nat} = set [48..<58]"
    by (simp_all only: set_upt)
  ultimately have "c \<in> set (map char_of [97..<123::nat]) \<or> c \<in> set (map char_of [48..<58::nat])"
    by simp
  moreover have "map char_of [97..<123::nat] = ''abcdefghijklmnopqrstuvwxyz''"
    by code_simp
  moreover have "map char_of [48..<58::nat] = ''0123456789''"
    by code_simp
  ultimately show "c \<in> set alphabet"
    by (auto simp: alphabet_def)
qed

lemma length_alphabet: "length alphabet = 36"
  by (simp add: alphabet_def)

lemma tagIdLoop_eq:
  "i \<le> 10 \<Longrightarrow> tagIdLoop rnd i generated =
     generated @ concat (map (\<lambda>j. str_index alphabet \<lfloor>rnd j * real (length alphabet)\<rfloor>) [i..<10])"
proof (induction rnd i generated rule: tagIdLoop.induct)
  case (1 rnd i generated)
  show ?case
  proof (cases "i < 10")
    case True
    then have "[i..<10] = i # [i + 1..<10]" by (simp add: upt_conv_Cons)
    with True 1 show ?thesis by (subst tagIdLoop.simps) simp
  next
    case False
    with 1 show ?thesis by (subst tagIdLoop.simps) simp
  qed
qed

lemma draw_index:
  assumes "0 \<le> r" "r < 1"
  shows "0 \<le> \<lfloor>r * real (length alphabet)\<rfloor> \<and> nat \<lfloor>r * real (length alphabet)\<rfloor> < length alphabet"
proof -
  have "r * 36 < 36" using assms by simp
  then have lt: "\<lfloor>r * 36\<rfloor> < 36" by (simp add: floor_less_iff)
  have ge: "0 \<le> \<lfloor>r * 36\<rfloor>" using assms by simp
  from lt ge have "nat \<lfloor>r * 36\<rfloor> < 36" by linarith
  with ge show ?thesis by (simp add: length_alphabet)
qed

lemma generateTagId_chars:
  assumes "\<forall>i<10. 0 \<le> rnd i \<and> rnd i < 1"
  shows "generateTagId rnd = map (\<lambda>j. alphabet ! nat \<lfloor>rnd j * real (length alphabet)\<rfloor>) [0..<10]"
proof -
  let ?f = "\<lambda>j. alphabet ! nat \<lfloor>rnd j * real (length alphabet)\<rfloor>"
  have "map (\<lambda>j. str_index alphabet \<lfloor>rnd j * real (length alphabet)\<rfloor>) [0..<10]
      = map (\<lambda>j. [?f j]) [0..<10]"
  proof (rule map_cong [OF refl])
    fix j assume "j \<in> set [0..<10]"
    then have "0 \<le> rnd j \<and> rnd j < 1" using assms by simp
    then show "str_index alphabet \<lfloor>rnd j * real (length alphabet)\<rfloor> = [?f j]"
      using draw_index [of "rnd j"] by (simp add: str_index_def)
  qed
  then have "concat (map (\<lambda>j. str_index alphabet \<lfloor>rnd j * real (length alphabet)\<rfloor>) [0..<10])
      = map ?f [0..<10]"
    by (simp only: concat_map_singleton)
  moreover have "generateTagId rnd =
      concat (map (\<lambda>j. str_index alphabet \<lfloor>rnd j * real (length alphabet)\<rfloor>) [0..<10])"
    unfolding generateTagId_def by (subst tagIdLoop_eq) simp_all
  ultimately show ?thesis by (simp only:)
qed

text \<open>
  Claim C9. For every sequence of random draws in \<open>[0, 1)\<close>, the string returned by
  \<open>generateTagId\<close> has exactly 10 characters, each taken from the 36-symbol alphabet
  \<open>[a-z0-9]\<close>, and it satisfies \<open>isValidTagUid\<close>.
\<close>

theorem generateTagId_valid:
  assumes "\<forall>i<10. 0 \<le> rnd i \<and> rnd i < 1"
  shows "length (generateTagId rnd) = 10 \<and> (\<forall>c\<in>set (generateTagId rnd). c \<in> set alphabet) \<and>
         length alphabet = 36 \<and> isValidTagUid (generateTagId rnd)"
proof -
  let ?g = "generateTagId rnd"
  have g: "?g = map (\<lambda>j. alphabet ! nat \<lfloor>rnd j * real (length alphabet)\<rfloor>) [0..<10]"
    using assms by (rule generateTagId_chars)
  have len: "length ?g = 10" by (subst g) simp
  have mem: "\<forall>c\<in>set ?g. c \<in> set alphabet"
    using assms draw_index by (subst g) auto
  have "list_all lower_alnum ?g"
    using mem alphabet_lower_alnum by (auto simp: list_all_iff)
  with len have "isValidTagUid ?g" by (simp add: isValidTagUid_iff spec_valid_uid_def)
  with len mem length_alphabet show ?thesis by simp
qed

theorem generateTagId_valid_witness:
  "length (generateTagId (\<lambda>i. real i / 10)) = 10 \<and> isValidTagUid (generateTagId (\<lambda>i. real i / 10))
   \<and> generateTagId (\<lambda>i. real i / 10) = ''adhkosvz26''"
proof -
  have h: "\<forall>i<10. 0 \<le> real i / 10 \<and> real i / 10 < 1" by simp
  have e: "generateTagId (\<lambda>i. real i / 10) = ''adhkosvz26''"
    by (simp add: generateTagId_def alphabet_def str_index_def)
  show ?thesis using generateTagId_valid [OF h] e by simp
qed

text \<open>
  Claim C1. \<open>isValidTagUid uid\<close> holds if and only if \<open>uid\<close> is exactly 10 characters of
  \<open>[a-z0-9]\<close>, or \<open>TAG_\<close> followed by exactly 8 characters of \<open>[a-z0-9]\<close>, where the
  characters of \<open>[a-z0-9]\<close> are the 36 symbols of the alphabet; the identifiers
  \<open>ab12cd34ef\<close> and \<open>TAG_abcd1234\<close> are accepted and \<open>short\<close> is rejected.
\<close>

theorem isValidTagUid_spec:
  "(isValidTagUid uid \<longleftrightarrow> spec_valid_uid uid) \<and>
   (lower_alnum c \<longleftrightarrow> c \<in> set alphabet) \<and>
   isValidTagUid ''ab12cd34ef'' \<and> isValidTagUid ''TAG_abcd1234'' \<and> \<not> isValidTagUid ''short''"
  by (simp add: isValidTagUid_iff lower_alnum_alphabet) (simp add: spec_valid_uid_def lower_alnum_def)

theorem isValidTagUid_spec_witness:
  "isValidTagUid ''TAG_abcd1234'' \<and> spec_valid_uid ''TAG_abcd1234''"
  using isValidTagUid_spec [of "''TAG_abcd1234''"] by blast

section \<open>Properties of the scan-event key\<close>

text \<open>
  The key is not a function of \<open>uid\<close>, \<open>hardwareUid\<close> and \<open>at\<close> alone: two events that
  agree on all three and report their hardware identifier as \<open>hardware_uid\<close> get
  different keys.
\<close>

theorem getNfcKey_hardware_uid_counterexample:
  "nfc_uid (snake_event ''04:A1'') = nfc_uid (snake_event ''04:B2'') \<and>
   hardwareUid (snake_event ''04:A1'') = hardwareUid (snake_event ''04:B2'') \<and>
   nfc_at (snake_event ''04:A1'') = nfc_at (snake_event ''04:B2'') \<and>
   getNfcKey (Some (snake_event ''04:A1'')) \<noteq> getNfcKey (Some (snake_event ''04:B2''))"
  by (simp add: snake_event_def getNfcKey_def or_else_def)

text \<open>
  Claim C2, as amended. \<open>getNfcKey\<close> yields the empty string for no event. Otherwise it
  yields \<open>at\<close>, \<open>uid\<close> and the hardware identifier, in that order, joined by colons, where
  an absent or zero \<open>at\<close> contributes nothing and the hardware identifier is \<open>hardwareUid\<close>
  or, when that is empty, \<open>hardware_uid\<close>. Two events that agree on \<open>at\<close>, \<open>uid\<close> and
  \<open>hardwareUid\<close>, and on \<open>hardware_uid\<close> when \<open>hardwareUid\<close> is empty, have the same key.
\<close>

theorem getNfcKey_spec:
  "getNfcKey None = '''' \<and>
   getNfcKey (Some e) =
     (case nfc_at e of None \<Rightarrow> '''' | Some n \<Rightarrow> if n = 0 then '''' else num_str n) @ '':'' @
     nfc_uid e @ '':'' @ (if hardwareUid e \<noteq> '''' then hardwareUid e else hardware_uid e) \<and>
   (nfc_at e = nfc_at e' \<and> nfc_uid e = nfc_uid e' \<and> hardwareUid e = hardwareUid e' \<and>
    (hardwareUid e = '''' \<longrightarrow> hardware_uid e = hardware_uid e')
      \<longrightarrow> getNfcKey (Some e) = getNfcKey (Some e'))"
  by (simp add: getNfcKey_def or_else_def split: option.splits)

theorem getNfcKey_spec_witness:
  "getNfcKey (Some touch_first) = '':04:a1:b2'' \<and>
   getNfcKey (Some (touch_first\<lparr>known := Some True\<rparr>)) = getNfcKey (Some touch_first)"
proof -
  have "getNfcKey (Some touch_first) = '':04:a1:b2''"
    using getNfcKey_spec [of touch_first touch_first] by (simp add: touch_first_def)
  moreover have "getNfcKey (Some touch_first) = getNfcKey (Some (touch_first\<lparr>known := Some True\<rparr>))"
    by (rule getNfcKey_spec [THEN conjunct2, THEN conjunct2, THEN mp]) simp
  ultimately show ?thesis by simp
qed

section \<open>Properties of the scan-event effect\<close>

lemma lastNfcEffect_skip:
  "\<not> (\<exists>s e. status st = Some s \<and> last_nfc s = Some e \<and> nfc_uid e \<noteq> '''' \<and> known e \<noteq> Some True \<and>
        lastNfcKey s e \<noteq> lastNfcKeyRef st) \<Longrightarrow> lastNfcEffect rnd st = st"
  by (auto simp: lastNfcEffect_def Let_def split: option.splits)

lemma lastNfcEffect_reset:
  assumes "status st = Some s" "last_nfc s = Some e" "nfc_uid e \<noteq> ''''" "known e \<noteq> Some True"
    "lastNfcKey s e \<noteq> lastNfcKeyRef st"
  shows "lastNfcKeyRef (lastNfcEffect rnd st) = lastNfcKey s e \<and>
         status (lastNfcEffect rnd st) = status st \<and>
         dismissedNfcKey (lastNfcEffect rnd st) = '''' \<and>
         tagStep (lastNfcEffect rnd st) = 0 \<and> tagStepMax (lastNfcEffect rnd st) = 0 \<and>
         tagStepOneDone (lastNfcEffect rnd st) = False \<and> tagStepTwoDone (lastNfcEffect rnd st) = False"
  using assms by (auto simp: lastNfcEffect_def Let_def)

lemma lastNfcEffect_changes_iff:
  "lastNfcEffect rnd st \<noteq> st \<longleftrightarrow>
     (\<exists>s e. status st = Some s \<and> last_nfc s = Some e \<and> nfc_uid e \<noteq> '''' \<and> known e \<noteq> Some True \<and>
        lastNfcKey s e \<noteq> lastNfcKeyRef st)"
proof
  assume "lastNfcEffect rnd st \<noteq> st"
  then show "\<exists>s e. status st = Some s \<and> last_nfc s = Some e \<and> nfc_uid e \<noteq> '''' \<and> known e \<noteq> Some True \<and>
        lastNfcKey s e \<noteq> lastNfcKeyRef st"
    using lastNfcEffect_skip [of st rnd] by blast
next
  assume "\<exists>s e. status st = Some s \<and> last_nfc s = Some e \<and> nfc_uid e \<noteq> '''' \<and> known e \<noteq> Some True \<and>
        lastNfcKey s e \<noteq> lastNfcKeyRef st"
  then obtain s e where h: "status st = Some s" "last_nfc s = Some e" "nfc_uid e \<noteq> ''''"
    "known e \<noteq> Some True" "lastNfcKey s e \<noteq> lastNfcKeyRef st"
    by blast
  then have "lastNfcKeyRef (lastNfcEffect rnd st) \<noteq> lastNfcKeyRef st"
    using lastNfcEffect_reset [OF h, of rnd] by simp
  then show "lastNfcEffect rnd st \<noteq> st" by auto
qed

lemma lastNfcEffect_again: "lastNfcEffect rnd' (lastNfcEffect rnd st) = lastNfcEffect rnd st"
proof (cases "lastNfcEffect rnd st = st")
  case True
  then have "lastNfcEffect rnd' st = st"
    using lastNfcEffect_changes_iff [of rnd st] lastNfcEffect_changes_iff [of rnd' st] by blast
  with True show ?thesis by simp
next
  case False
  then obtain s e where h: "status st = Some s" "last_nfc s = Some e" "nfc_uid e \<noteq> ''''"
    "known e \<noteq> Some True" "lastNfcKey s e \<noteq> lastNfcKeyRef st"
    using lastNfcEffect_changes_iff [of rnd st] by blast
  have "status (lastNfcEffect rnd st) = Some s"
    "lastNfcKeyRef (lastNfcEffect rnd st) = lastNfcKey s e"
    using lastNfcEffect_reset [OF h, of rnd] h(1) by simp_all
  then show ?thesis
    using h(2) by (intro lastNfcEffect_skip) auto
qed

text \<open>
  Claim C3, as amended. The effect actions an event of the status feed, that is, it
  resets the wizard to step 0 and clears the dismissed key, only if \<open>known\<close> of the event
  is not \<open>true\<close> (the test is \<open>!known\<close>: \<open>false\<close>, \<open>null\<close> or absent) and the key
  \<open>last_nfc_at:uid\<close> of the event, built from the time stamp and the uid without the
  hardware identifier, differs from the key actioned last; it then records that key.
  An event whose \<open>last_nfc_at:uid\<close> key equals the key actioned last is not actioned, and
  after an event has been actioned the same feed is not actioned again. The card of the
  wizard is shown for an event of the status feed only if \<open>known\<close> of the event is \<open>false\<close>
  and its \<open>getNfcKey\<close> key differs from the dismissed key: an event of the feed with
  another \<open>known\<close> is not the active event.
\<close>

theorem lastNfcEffect_actionable:
  "(lastNfcEffect rnd st \<noteq> st \<longrightarrow>
      (\<exists>s e. status st = Some s \<and> last_nfc s = Some e \<and> known e \<noteq> Some True \<and>
         lastNfcKey s e \<noteq> lastNfcKeyRef st \<and>
         lastNfcKeyRef (lastNfcEffect rnd st) = lastNfcKey s e \<and>
         tagStep (lastNfcEffect rnd st) = 0 \<and> dismissedNfcKey (lastNfcEffect rnd st) = '''')) \<and>
   (status st = Some s \<and> last_nfc s = Some e \<and> lastNfcKey s e = lastNfcKeyRef st \<longrightarrow>
      lastNfcEffect rnd st = st) \<and>
   lastNfcEffect rnd' (lastNfcEffect rnd st) = lastNfcEffect rnd st \<and>
   (status st = Some s \<and> last_nfc s = Some e \<and> known e = Some False \<and> wizardShown st \<longrightarrow>
      getNfcKey (Some (e\<lparr>nfc_at := last_nfc_at s\<rparr>)) \<noteq> dismissedNfcKey st) \<and>
   (status st = Some s \<and> last_nfc s = Some e \<and> known e \<noteq> Some False \<longrightarrow>
      activeNfc st = simulatedNfc st)"
proof -
  have A: "\<exists>s e. status st = Some s \<and> last_nfc s = Some e \<and> known e \<noteq> Some True \<and>
         lastNfcKey s e \<noteq> lastNfcKeyRef st \<and>
         lastNfcKeyRef (lastNfcEffect rnd st) = lastNfcKey s e \<and>
         tagStep (lastNfcEffect rnd st) = 0 \<and> dismissedNfcKey (lastNfcEffect rnd st) = ''''"
    if c: "lastNfcEffect rnd st \<noteq> st"
  proof -
    from c obtain s e where h: "status st = Some s" "last_nfc s = Some e" "nfc_uid e \<noteq> ''''"
      "known e \<noteq> Some True" "lastNfcKey s e \<noteq> lastNfcKeyRef st"
      using lastNfcEffect_changes_iff [of rnd st] by blast
    from lastNfcEffect_reset [OF h, of rnd] h show ?thesis by blast
  qed
  have B: "lastNfcEffect rnd st = st"
    if "status st = Some s \<and> last_nfc s = Some e \<and> lastNfcKey s e = lastNfcKeyRef st"
    using that by (intro lastNfcEffect_skip) auto
  have C: "lastNfcEffect rnd' (lastNfcEffect rnd st) = lastNfcEffect rnd st"
    by (rule lastNfcEffect_again)
  have D: "getNfcKey (Some (e\<lparr>nfc_at := last_nfc_at s\<rparr>)) \<noteq> dismissedNfcKey st"
    if "status st = Some s \<and> last_nfc s = Some e \<and> known e = Some False \<and> wizardShown st"
    using that by (auto simp: wizardShown_def activeNfc_def)
  have E: "activeNfc st = simulatedNfc st"
    if "status st = Some s \<and> last_nfc s = Some e \<and> known e \<noteq> Some False"
    using that by (auto simp: activeNfc_def)
  from A B C D E show ?thesis by blast
qed

lemma after_first_touch_ref: "lastNfcKeyRef after_first_touch = ''1:04''"
  by (simp add: after_first_touch_def lastNfcEffect_def initialApp_def feed_def touch_first_def
      lastNfcKey_def num_str_def dec_digits.simps Let_def)

lemma after_first_touch_status: "status after_first_touch = Some (feed touch_first 1)"
  by (simp add: after_first_touch_def lastNfcEffect_def initialApp_def feed_def touch_first_def
      lastNfcKey_def num_str_def dec_digits.simps Let_def)

lemma after_first_touch_simulated: "simulatedNfc after_first_touch = None"
  by (simp add: after_first_touch_def lastNfcEffect_def initialApp_def feed_def touch_first_def
      lastNfcKey_def num_str_def dec_digits.simps Let_def)

lemma after_second_touch_ref: "lastNfcKeyRef after_second_touch = ''1:04:a1''"
  by (simp add: after_second_touch_def lastNfcEffect_def initialApp_def feed_def touch_second_def
      lastNfcKey_def num_str_def dec_digits.simps Let_def)

theorem lastNfcEffect_actionable_witness:
  "lastNfcEffect (\<lambda>i. 0) (initialApp\<lparr>status := Some (feed touch_first 1)\<rparr>)
      \<noteq> initialApp\<lparr>status := Some (feed touch_first 1)\<rparr> \<and>
   lastNfcKeyRef (lastNfcEffect (\<lambda>i. 0) (initialApp\<lparr>status := Some (feed touch_first 1)\<rparr>)) = ''1:04'' \<and>
   lastNfcEffect (\<lambda>i. 0) after_first_touch = after_first_touch \<and>
   wizardShown after_first_touch \<and>
   getNfcKey (Some (touch_first\<lparr>nfc_at := Some 1\<rparr>)) \<noteq> dismissedNfcKey after_first_touch \<and>
   activeNfc (after_first_touch\<lparr>status := Some (feed (touch_first\<lparr>known := Some True\<rparr>) 2)\<rparr>) = None"
proof -
  let ?st = "initialApp\<lparr>status := Some (feed touch_first 1)\<rparr>"
  let ?kn = "after_first_touch\<lparr>status := Some (feed (touch_first\<lparr>known := Some True\<rparr>) 2)\<rparr>"
  have k: "lastNfcKey (feed touch_first 1) touch_first = ''1:04''"
    by (simp add: lastNfcKey_def feed_def touch_first_def num_str_def dec_digits.simps)
  have f: "last_nfc (feed touch_first 1) = Some touch_first" "last_nfc_at (feed touch_first 1) = Some 1"
    "known touch_first = Some False"
    by (simp_all add: feed_def touch_first_def)
  have "lastNfcKeyRef (lastNfcEffect (\<lambda>i. 0) ?st) = ''1:04''"
    by (simp add: lastNfcEffect_def initialApp_def feed_def touch_first_def lastNfcKey_def
        num_str_def dec_digits.simps Let_def)
  then have "lastNfcKeyRef (lastNfcEffect (\<lambda>i. 0) ?st) \<noteq> lastNfcKeyRef ?st"
    by (simp add: initialApp_def)
  then have c: "lastNfcEffect (\<lambda>i. 0) ?st \<noteq> ?st" by auto
  obtain s e where r: "status ?st = Some s" "last_nfc s = Some e"
    "lastNfcKeyRef (lastNfcEffect (\<lambda>i. 0) ?st) = lastNfcKey s e"
    using lastNfcEffect_actionable [of "\<lambda>i. 0" ?st] c by blast
  from r(1) have s: "s = feed touch_first 1" by simp
  with r(2) have "e = touch_first" by (simp add: f)
  note s this
  with r(3) k have w1: "lastNfcKeyRef (lastNfcEffect (\<lambda>i. 0) ?st) = ''1:04''" by simp
  have h2: "status after_first_touch = Some (feed touch_first 1) \<and>
      last_nfc (feed touch_first 1) = Some touch_first \<and>
      lastNfcKey (feed touch_first 1) touch_first = lastNfcKeyRef after_first_touch"
    by (simp add: after_first_touch_status after_first_touch_ref k f)
  have w2: "lastNfcEffect (\<lambda>i. 0) after_first_touch = after_first_touch"
    using lastNfcEffect_actionable [of "\<lambda>i. 0" after_first_touch "feed touch_first 1" touch_first] h2
    by blast
  have sh: "wizardShown after_first_touch"
    by (simp add: wizardShown_def activeNfc_def after_first_touch_status f getNfcKey_def)
       (simp add: after_first_touch_def lastNfcEffect_def initialApp_def feed_def touch_first_def
          lastNfcKey_def num_str_def dec_digits.simps Let_def)
  have w3: "getNfcKey (Some (touch_first\<lparr>nfc_at := Some 1\<rparr>)) \<noteq> dismissedNfcKey after_first_touch"
    using lastNfcEffect_actionable [of "\<lambda>i. 0" after_first_touch "feed touch_first 1" touch_first]
      h2 f sh by auto
  have h4: "status ?kn = Some (feed (touch_first\<lparr>known := Some True\<rparr>) 2) \<and>
      last_nfc (feed (touch_first\<lparr>known := Some True\<rparr>) 2) = Some (touch_first\<lparr>known := Some True\<rparr>) \<and>
      known (touch_first\<lparr>known := Some True\<rparr>) \<noteq> Some False"
    by (simp add: feed_def)
  have "activeNfc ?kn = simulatedNfc ?kn"
    using lastNfcEffect_actionable [of "\<lambda>i. 0" ?kn "feed (touch_first\<lparr>known := Some True\<rparr>) 2"
        "touch_first\<lparr>known := Some True\<rparr>"] h4
    by blast
  then have w4: "activeNfc ?kn = None"
    by (simp add: after_first_touch_simulated)
  from c w1 w2 sh w3 w4 show ?thesis by simp
qed

text \<open>
  The key the effect compares is not the key of \<open>getNfcKey\<close>. After the first touch has
  been handled, an event with the same \<open>getNfcKey\<close> key as that touch is actioned again,
  because its \<open>last_nfc_at:uid\<close> key is different. Likewise, after the second touch has
  been handled, an event whose \<open>getNfcKey\<close> key equals the recorded key is actioned again.
  When the first touch has been dismissed, the card is not shown for the event with the
  same \<open>getNfcKey\<close> key until the effect has run, which clears the dismissed key. And the
  effect actions an event whose \<open>known\<close> is absent, which is not \<open>known === false\<close>.
\<close>

theorem lastNfcEffect_same_normalized_key_counterexample:
  "activeNfcKey (after_first_touch\<lparr>status := Some (feed touch_second 1)\<rparr>) = activeNfcKey after_first_touch \<and>
   lastNfcEffect (\<lambda>i. 0) (after_first_touch\<lparr>status := Some (feed touch_second 1)\<rparr>)
     \<noteq> after_first_touch\<lparr>status := Some (feed touch_second 1)\<rparr> \<and>
   activeNfcKey (after_second_touch\<lparr>status := Some (feed touch_third 1)\<rparr>) = lastNfcKeyRef after_second_touch \<and>
   lastNfcEffect (\<lambda>i. 0) (after_second_touch\<lparr>status := Some (feed touch_third 1)\<rparr>)
     \<noteq> after_second_touch\<lparr>status := Some (feed touch_third 1)\<rparr> \<and>
   \<not> wizardShown (after_first_touch\<lparr>dismissedNfcKey := activeNfcKey after_first_touch,
                     status := Some (feed touch_second 1)\<rparr>) \<and>
   wizardShown (lastNfcEffect (\<lambda>i. 0)
                  (after_first_touch\<lparr>dismissedNfcKey := activeNfcKey after_first_touch,
                     status := Some (feed touch_second 1)\<rparr>)) \<and>
   known (touch_first\<lparr>known := None\<rparr>) \<noteq> Some False \<and>
   lastNfcEffect (\<lambda>i. 0) (initialApp\<lparr>status := Some (feed (touch_first\<lparr>known := None\<rparr>) 1)\<rparr>)
     \<noteq> initialApp\<lparr>status := Some (feed (touch_first\<lparr>known := None\<rparr>) 1)\<rparr>"
proof -
  let ?st2 = "after_first_touch\<lparr>status := Some (feed touch_second 1)\<rparr>"
  let ?st3 = "after_second_touch\<lparr>status := Some (feed touch_third 1)\<rparr>"
  let ?st4 = "after_first_touch\<lparr>dismissedNfcKey := activeNfcKey after_first_touch,
                status := Some (feed touch_second 1)\<rparr>"
  let ?st5 = "initialApp\<lparr>status := Some (feed (touch_first\<lparr>known := None\<rparr>) 1)\<rparr>"
  have a: "activeNfcKey ?st2 = ''1:04:a1:b2''"
    by (simp add: activeNfcKey_def activeNfc_def feed_def touch_second_def getNfcKey_def or_else_def
        num_str_def dec_digits.simps)
  have b: "activeNfcKey after_first_touch = ''1:04:a1:b2''"
    by (simp add: activeNfcKey_def activeNfc_def after_first_touch_status feed_def touch_first_def
        getNfcKey_def or_else_def num_str_def dec_digits.simps)
  have "lastNfcKeyRef (lastNfcEffect (\<lambda>i. 0) ?st2) = ''1:04:a1''"
    by (simp add: lastNfcEffect_def after_first_touch_ref feed_def touch_second_def lastNfcKey_def
        num_str_def dec_digits.simps Let_def)
  then have "lastNfcKeyRef (lastNfcEffect (\<lambda>i. 0) ?st2) \<noteq> lastNfcKeyRef ?st2"
    by (simp add: after_first_touch_ref)
  then have c: "lastNfcEffect (\<lambda>i. 0) ?st2 \<noteq> ?st2" by auto
  have d: "activeNfcKey ?st3 = ''1:04:a1''"
    by (simp add: activeNfcKey_def activeNfc_def feed_def touch_third_def getNfcKey_def or_else_def
        num_str_def dec_digits.simps)
  have "lastNfcKeyRef (lastNfcEffect (\<lambda>i. 0) ?st3) = ''1:04''"
    by (simp add: lastNfcEffect_def after_second_touch_ref feed_def touch_third_def lastNfcKey_def
        num_str_def dec_digits.simps Let_def)
  then have "lastNfcKeyRef (lastNfcEffect (\<lambda>i. 0) ?st3) \<noteq> lastNfcKeyRef ?st3"
    by (simp add: after_second_touch_ref)
  then have e: "lastNfcEffect (\<lambda>i. 0) ?st3 \<noteq> ?st3" by auto
  have f: "\<not> wizardShown ?st4"
    by (simp add: wizardShown_def b)
       (simp add: activeNfc_def feed_def touch_second_def getNfcKey_def or_else_def
          num_str_def dec_digits.simps)
  have g: "wizardShown (lastNfcEffect (\<lambda>i. 0) ?st4)"
    by (simp add: wizardShown_def lastNfcEffect_def after_first_touch_ref feed_def touch_second_def
        lastNfcKey_def num_str_def dec_digits.simps Let_def activeNfc_def getNfcKey_def)
  have "lastNfcKeyRef (lastNfcEffect (\<lambda>i. 0) ?st5) = ''1:04''"
    by (simp add: lastNfcEffect_def initialApp_def feed_def touch_first_def lastNfcKey_def
        num_str_def dec_digits.simps Let_def)
  then have "lastNfcKeyRef (lastNfcEffect (\<lambda>i. 0) ?st5) \<noteq> lastNfcKeyRef ?st5"
    by (simp add: initialApp_def)
  then have h: "lastNfcEffect (\<lambda>i. 0) ?st5 \<noteq> ?st5" by auto
  from a b c d e f g h after_second_touch_ref show ?thesis by simp
qed

section \<open>Properties of the block matrix\<close>

lemma request_sent: "request srv c n = (r, n1) \<Longrightarrow> sent n1 = sent n @ [c]"
  by (auto simp: request_def split: prod.splits)

lemma request_refusing:
  "request (refusing bad) c n =
     (Some (if bad c then (okReply c)\<lparr>ok := False, detail := ''refused''\<rparr> else okReply c),
      n\<lparr>sent := sent n @ [c]\<rparr>)"
  by (simp add: request_def refusing_def)

lemma request_failing:
  "request (failing bad) c n = (if bad c then None else Some (okReply c), n\<lparr>sent := sent n @ [c]\<rparr>)"
  by (simp add: request_def failing_def)

lemma set_new_Set_aux: "set (foldl set_add acc xs) = set acc \<union> set xs"
  by (induction xs arbitrary: acc) (auto simp: set_add_def)

lemma set_new_Set: "set (new_Set xs) = set xs"
  by (simp add: new_Set_def set_new_Set_aux)

lemma set_set_add: "set (set_add s x) = insert x (set s)"
  by (auto simp: set_add_def)

lemma set_set_delete: "set (set_delete s x) = set s - {x}"
  by (auto simp: set_delete_def)

lemma handleToggleTagBlock_thrown:
  assumes "request srv (SetTagBlock boxId uid b) n = (None, n1)"
  shows "handleToggleTagBlock srv boxId uid b (st, n) = Thrown (st, n1)"
  using assms by (simp add: handleToggleTagBlock_def)

lemma handleToggleTagBlock_refused:
  assumes "request srv (SetTagBlock boxId uid b) n = (Some r, n1)" "\<not> ok r"
  shows "handleToggleTagBlock srv boxId uid b (st, n) =
           Returned (addToast ''error'' (or_else (detail r) ''Tag-Sperre fehlgeschlagen.'') st, n1)"
  using assms by (simp add: handleToggleTagBlock_def)

lemma handleToggleTagBlock_accepted:
  assumes "request srv (SetTagBlock boxId uid b) n = (Some r, n1)" "ok r"
  shows "handleToggleTagBlock srv boxId uid b (st, n) =
           Returned (addToast ''success'' (if b then ''Tag gesperrt.'' else ''Tag freigegeben.'')
              (st\<lparr>blockedByBox := (blockedByBox st)(boxId \<mapsto>
                 (if b then set_add (new_Set (case blockedByBox st boxId of None \<Rightarrow> [] | Some xs \<Rightarrow> xs)) uid
                  else set_delete (new_Set (case blockedByBox st boxId of None \<Rightarrow> [] | Some xs \<Rightarrow> xs)) uid))\<rparr>), n1)"
  using assms by (simp add: handleToggleTagBlock_def Let_def)

lemma blockSet_alt:
  "blockSet st k = set (case blockedByBox st k of None \<Rightarrow> [] | Some xs \<Rightarrow> xs)"
  by (simp add: blockSet_def split: option.splits)

lemma blockSet_after_toggle:
  assumes "request srv (SetTagBlock boxId uid b) n = (Some r, n1)" "ok r"
    "outcome (handleToggleTagBlock srv boxId uid b (st, n)) = (st', n')"
  shows "blockSet st' boxId = (if b then insert uid (blockSet st boxId) else blockSet st boxId - {uid})"
proof -
  let ?old = "case blockedByBox st boxId of None \<Rightarrow> [] | Some xs \<Rightarrow> xs"
  let ?new = "if b then set_add (new_Set ?old) uid else set_delete (new_Set ?old) uid"
  from assms(3) have "blockedByBox st' boxId = Some ?new"
    unfolding handleToggleTagBlock_accepted [OF assms(1,2)] by (auto simp: addToast_def outcome_def)
  then have "blockSet st' boxId = set ?new"
    by (simp add: blockSet_def)
  also have "\<dots> = (if b then insert uid (set ?old) else set ?old - {uid})"
    by (simp add: set_set_add set_set_delete set_new_Set)
  finally show ?thesis by (simp only: blockSet_alt)
qed

text \<open>
  Claim C8. Toggling a cell makes exactly one \<open>setTagBlock\<close> call. When the call throws,
  the state is left as it was. When the collaborator refuses it, the block map is left
  exactly as it was and only an error toast is added; the block map changes only after
  an accepted call, and then the uid is added to or removed from the set of that box.
\<close>

theorem handleToggleTagBlock_after_ack:
  assumes "request srv (SetTagBlock boxId uid b) n = (answer, n1)"
    and "outcome (handleToggleTagBlock srv boxId uid b (st, n)) = (st', n')"
  shows "sent n' = sent n @ [SetTagBlock boxId uid b] \<and>
         (answer = None \<longrightarrow> st' = st) \<and>
         (answer = Some r \<and> \<not> ok r \<longrightarrow> blockedByBox st' = blockedByBox st \<and>
            st' = st\<lparr>toasts := toasts st @ [(''error'', or_else (detail r) ''Tag-Sperre fehlgeschlagen.'')]\<rparr>) \<and>
         (blockedByBox st' \<noteq> blockedByBox st \<longrightarrow> (\<exists>a. answer = Some a \<and> ok a)) \<and>
         (answer = Some r \<and> ok r \<longrightarrow> blockSet st' boxId =
            (if b then insert uid (blockSet st boxId) else blockSet st boxId - {uid}))"
proof (cases answer)
  case None
  with assms(1) have t: "request srv (SetTagBlock boxId uid b) n = (None, n1)" by simp
  from assms(2) have "n' = n1" "st' = st"
    unfolding handleToggleTagBlock_thrown [OF t] by (simp_all add: outcome_def)
  with None request_sent [OF assms(1)] show ?thesis by simp
next
  case (Some a)
  with assms(1) have t: "request srv (SetTagBlock boxId uid b) n = (Some a, n1)" by simp
  show ?thesis
  proof (cases "ok a")
    case True
    from assms(2) have "n' = n1"
      unfolding handleToggleTagBlock_accepted [OF t True] by (simp add: outcome_def)
    then have "sent n' = sent n @ [SetTagBlock boxId uid b]"
      using request_sent [OF t] by simp
    with Some True blockSet_after_toggle [OF t True assms(2)] show ?thesis by auto
  next
    case False
    from assms(2) have e: "n' = n1" "st' = addToast ''error'' (or_else (detail a) ''Tag-Sperre fehlgeschlagen.'') st"
      unfolding handleToggleTagBlock_refused [OF t False] by (simp_all add: outcome_def)
    then have "sent n' = sent n @ [SetTagBlock boxId uid b]"
      using request_sent [OF t] by simp
    with Some False e show ?thesis by (auto simp: addToast_def)
  qed
qed

theorem handleToggleTagBlock_after_ack_witness:
  "blockedByBox (fst (outcome (handleToggleTagBlock (refusing (\<lambda>c. True)) ''box-42'' ''ab12cd34ef'' True
                        (blocked_example, idle)))) = blockedByBox blocked_example \<and>
   blockSet (fst (outcome (handleToggleTagBlock (refusing (\<lambda>c. False)) ''box-42'' ''ab12cd34ef'' True
                        (blocked_example, idle)))) ''box-42'' = {''zz99zz99zz'', ''ab12cd34ef''} \<and>
   sent (snd (outcome (handleToggleTagBlock (refusing (\<lambda>c. True)) ''box-42'' ''ab12cd34ef'' True
                        (blocked_example, idle)))) = [SetTagBlock ''box-42'' ''ab12cd34ef'' True] \<and>
   fst (outcome (handleToggleTagBlock (failing (\<lambda>c. True)) ''box-42'' ''ab12cd34ef'' True
                        (blocked_example, idle))) = blocked_example"
proof -
  let ?no = "outcome (handleToggleTagBlock (refusing (\<lambda>c. True)) ''box-42'' ''ab12cd34ef'' True (blocked_example, idle))"
  let ?yes = "outcome (handleToggleTagBlock (refusing (\<lambda>c. False)) ''box-42'' ''ab12cd34ef'' True (blocked_example, idle))"
  let ?thrown = "outcome (handleToggleTagBlock (failing (\<lambda>c. True)) ''box-42'' ''ab12cd34ef'' True (blocked_example, idle))"
  let ?c = "SetTagBlock ''box-42'' ''ab12cd34ef'' True"
  have r1: "request (refusing (\<lambda>c. True)) ?c idle =
      (Some ((okReply ?c)\<lparr>ok := False, detail := ''refused''\<rparr>), idle\<lparr>sent := sent idle @ [?c]\<rparr>)"
    by (simp add: request_refusing)
  have r2: "request (refusing (\<lambda>c. False)) ?c idle = (Some (okReply ?c), idle\<lparr>sent := sent idle @ [?c]\<rparr>)"
    by (simp add: request_refusing)
  have r3: "request (failing (\<lambda>c. True)) ?c idle = (None, idle\<lparr>sent := sent idle @ [?c]\<rparr>)"
    by (simp add: request_failing)
  have o1: "\<not> ok ((okReply ?c)\<lparr>ok := False, detail := ''refused''\<rparr>)" by simp
  have o2: "ok (okReply ?c)" by (simp add: okReply_def)
  have h1: "?no = (fst ?no, snd ?no)" and h2: "?yes = (fst ?yes, snd ?yes)"
    and h3: "?thrown = (fst ?thrown, snd ?thrown)" by simp_all
  have b: "blockSet blocked_example ''box-42'' = {''zz99zz99zz''}"
    by (simp add: blockSet_def blocked_example_def)
  from handleToggleTagBlock_after_ack [OF r1 h1, of "(okReply ?c)\<lparr>ok := False, detail := ''refused''\<rparr>"] o1
  have "blockedByBox (fst ?no) = blockedByBox blocked_example"
    "sent (snd ?no) = sent idle @ [SetTagBlock ''box-42'' ''ab12cd34ef'' True]"
    by simp_all
  moreover from handleToggleTagBlock_after_ack [OF r2 h2, of "okReply ?c"] o2 b
  have "blockSet (fst ?yes) ''box-42'' = {''zz99zz99zz'', ''ab12cd34ef''}"
    by auto
  moreover from handleToggleTagBlock_after_ack [OF r3 h3]
  have "fst ?thrown = blocked_example"
    by simp
  ultimately show ?thesis by (simp add: idle_def)
qed

text \<open>
  Claim C10. An accepted toggle for \<open>(boxId, uid)\<close> leaves the entry of every other box
  unchanged, and in the set of \<open>boxId\<close> only the membership of \<open>uid\<close> changes: it is a
  member afterwards exactly when the toggle was blocking.
\<close>

theorem handleToggleTagBlock_frame:
  assumes "request srv (SetTagBlock boxId uid b) n = (Some r, n1)" and "ok r"
    and "outcome (handleToggleTagBlock srv boxId uid b (st, n)) = (st', n')"
  shows "(\<forall>other. other \<noteq> boxId \<longrightarrow> blockedByBox st' other = blockedByBox st other) \<and>
         (\<forall>other. other \<noteq> boxId \<longrightarrow> blockSet st' other = blockSet st other) \<and>
         (\<forall>u. u \<noteq> uid \<longrightarrow> (u \<in> blockSet st' boxId \<longleftrightarrow> u \<in> blockSet st boxId)) \<and>
         (uid \<in> blockSet st' boxId \<longleftrightarrow> b)"
proof -
  have s: "blockSet st' boxId = (if b then insert uid (blockSet st boxId) else blockSet st boxId - {uid})"
    by (rule blockSet_after_toggle [OF assms])
  have f: "\<forall>other. other \<noteq> boxId \<longrightarrow> blockedByBox st' other = blockedByBox st other"
    using assms(3) unfolding handleToggleTagBlock_accepted [OF assms(1,2)]
    by (auto simp: addToast_def outcome_def)
  then have "\<forall>other. other \<noteq> boxId \<longrightarrow> blockSet st' other = blockSet st other"
    by (simp add: blockSet_def)
  with s f show ?thesis by auto
qed

theorem handleToggleTagBlock_frame_witness:
  "blockedByBox (fst (outcome (handleToggleTagBlock (refusing (\<lambda>c. False)) ''box-7'' ''zz99zz99zz'' True
                        (blocked_example, idle)))) ''box-42'' = Some [''zz99zz99zz''] \<and>
   ''zz99zz99zz'' \<notin> blockSet (fst (outcome (handleToggleTagBlock (refusing (\<lambda>c. False)) ''box-42'' ''zz99zz99zz'' False
                        (blocked_example, idle)))) ''box-42''"
proof -
  let ?a = "outcome (handleToggleTagBlock (refusing (\<lambda>c. False)) ''box-7'' ''zz99zz99zz'' True (blocked_example, idle))"
  let ?b = "outcome (handleToggleTagBlock (refusing (\<lambda>c. False)) ''box-42'' ''zz99zz99zz'' False (blocked_example, idle))"
  let ?c1 = "SetTagBlock ''box-7'' ''zz99zz99zz'' True"
  let ?c2 = "SetTagBlock ''box-42'' ''zz99zz99zz'' False"
  have r1: "request (refusing (\<lambda>c. False)) ?c1 idle = (Some (okReply ?c1), idle\<lparr>sent := sent idle @ [?c1]\<rparr>)"
    by (simp add: request_refusing)
  have r2: "request (refusing (\<lambda>c. False)) ?c2 idle = (Some (okReply ?c2), idle\<lparr>sent := sent idle @ [?c2]\<rparr>)"
    by (simp add: request_refusing)
  have o1: "ok (okReply ?c1)" and o2: "ok (okReply ?c2)" by (simp_all add: okReply_def)
  have h1: "?a = (fst ?a, snd ?a)" and h2: "?b = (fst ?b, snd ?b)" by simp_all
  have "blockedByBox (fst ?a) ''box-42'' = blockedByBox blocked_example ''box-42''"
    using handleToggleTagBlock_frame [OF r1 o1 h1] by simp
  moreover have "''zz99zz99zz'' \<notin> blockSet (fst ?b) ''box-42''"
    using handleToggleTagBlock_frame [OF r2 o2 h2] by simp
  ultimately show ?thesis by (simp add: blocked_example_def)
qed

section \<open>Properties of the commit\<close>

lemma dropWhile_rev_strip:
  assumes "u = [] \<or> \<not> P (hd u)"
  shows "dropWhile P (rev (dropWhile P (rev u))) = rev (dropWhile P (rev u))"
proof (cases u)
  case Nil
  then show ?thesis by simp
next
  case (Cons x xs)
  with assms have nx: "\<not> P x" by simp
  have "dropWhile P (rev xs @ [x]) \<noteq> [] \<and> last (dropWhile P (rev xs @ [x])) = x"
    using nx by (auto simp: dropWhile_append)
  then obtain zs where "dropWhile P (rev xs @ [x]) = zs @ [x]"
    by (metis append_butlast_last_id)
  with Cons nx show ?thesis by simp
qed

lemma dropWhile_trimmed:
  "dropWhile P (rev (dropWhile P (rev (dropWhile P s)))) = rev (dropWhile P (rev (dropWhile P s)))"
proof (rule dropWhile_rev_strip)
  show "dropWhile P s = [] \<or> \<not> P (hd (dropWhile P s))"
    using hd_dropWhile [of P s] by blast
qed

lemma trim_trim: "trim (trim s) = trim s"
proof -
  have "dropWhile js_space (trim s) = trim s"
    unfolding trim_def by (rule dropWhile_trimmed)
  then have "trim (trim s) = rev (dropWhile js_space (rev (trim s)))"
    by (simp add: trim_def)
  also have "\<dots> = trim s"
    by (simp add: trim_def)
  finally show ?thesis .
qed

lemma handlePlayerCommand_nfc_on:
  assumes "selectedId cl \<noteq> ''''"
    and "outcome (handlePlayerCommand srv rnd now cl ''nfc_on'' (Some u) (st, n)) = (st', n')"
  shows "sent n' = sent n @ (if trim u = '''' then [] else [SendCommand (selectedId cl) ''nfc_on'' (Some (trim u))])
         \<and> toasts st' = toasts st \<and> error st' = error st \<and> tagUidError st' = tagUidError st"
  using assms
  by (auto simp: handlePlayerCommand_def Let_def request_def outcome_def
      split: if_splits prod.splits option.splits)

lemma lastNfcUnknown_active: "lastNfcUnknown cl \<Longrightarrow> activeNfcUnknown cl"
  by (auto simp: lastNfcUnknown_def activeNfcUnknown_def activeNfc_def split: option.splits)

lemma claimRefreshStep_effect:
  assumes "outcome (claimRefreshStep srv cl (st, n)) = (st', n')"
  shows "sent n' = sent n @ GetTags #
           (if selectedId cl = '''' \<or> fst (request srv GetTags n) = None then []
            else [GetBoxTags (selectedId cl)])
         \<and> toasts st' = toasts st \<and> error st' = error st \<and> tagUidError st' = tagUidError st"
  using assms
  by (auto simp: claimRefreshStep_def Let_def request_def outcome_def
      split: if_splits prod.splits option.splits)

lemma claimWriteStep_existing:
  assumes "find (\<lambda>t. tag_uid t = currentUid cl) (tags cl) = Some t" "tag_status t \<noteq> NEW"
  shows "claimWriteStep srv cl (st, n) = Inr (st, n)"
  using assms by (simp add: claimWriteStep_def)

lemma claimWriteStep_ended:
  assumes "claimWriteStep srv cl (st, n) = Inl c" "outcome c = (st', n')"
  shows "\<exists>ws. sent n' = sent n @ ws \<and> (\<forall>c\<in>set ws. status_changing c)"
  using assms
  by (auto simp: claimWriteStep_def request_def outcome_def
      split: option.splits if_splits prod.splits)

lemma claimWriteStep_passed:
  assumes "claimWriteStep srv cl (st, n) = Inr (st', n')"
  shows "\<exists>ws. sent n' = sent n @ ws \<and> (\<forall>c\<in>set ws. status_changing c)"
  using assms
  by (auto simp: claimWriteStep_def request_def split: option.splits if_splits prod.splits)

lemma claimAssignStep_skip:
  assumes "\<not> shouldAssign cl"
  shows "\<exists>st' ts. claimAssignStep srv rnd now cl (st, n) = Inr (st', n) \<and> error st' = '''' \<and>
           tagUidError st' = tagUidError st \<and>
           toasts st' = toasts st @ (''success'', ''Tag geschrieben.'') # ts \<and>
           (\<forall>t\<in>set ts. fst t = ''success'')"
  using assms
  by (auto simp: claimAssignStep_def Let_def addToast_def split: option.splits)

lemma claimAssignStep_media_thrown:
  assumes "shouldAssign cl"
    and "request srv (SetTagMedia (currentUid cl) (scanMediaPath cl)) n = (None, n1)"
  shows "\<exists>st'. claimAssignStep srv rnd now cl (st, n) = Inl (Thrown (st', n1)) \<and>
           error st' = '''' \<and> tagUidError st' = tagUidError st \<and>
           toasts st' = toasts st @ [(''success'', ''Tag geschrieben.'')]"
  using assms
  by (auto simp: claimAssignStep_def Let_def addToast_def split: option.splits)

lemma claimAssignStep_media_failed:
  assumes "shouldAssign cl"
    and "request srv (SetTagMedia (currentUid cl) (scanMediaPath cl)) n = (Some mediaSet, n1)"
    and "\<not> ok mediaSet"
  shows "\<exists>st'. claimAssignStep srv rnd now cl (st, n) = Inl (Returned (st', n1)) \<and>
           error st' = or_else (detail mediaSet) ''Medium setzen fehlgeschlagen.'' \<and>
           tagUidError st' = tagUidError st \<and>
           toasts st' = toasts st @ [(''success'', ''Tag geschrieben.''),
              (''error'', or_else (detail mediaSet) ''Medium setzen fehlgeschlagen.'')]"
  using assms
  by (auto simp: claimAssignStep_def Let_def addToast_def reportError_def split: option.splits)

lemma claimAssignStep_assign_thrown:
  assumes "shouldAssign cl"
    and "request srv (SetTagMedia (currentUid cl) (scanMediaPath cl)) n = (Some mediaSet, n1)"
    and "ok mediaSet"
    and "request srv (AssignTag (currentUid cl) (selectedId cl)) n1 = (None, n2)"
  shows "\<exists>st'. claimAssignStep srv rnd now cl (st, n) = Inl (Thrown (st', n2)) \<and>
           error st' = '''' \<and> tagUidError st' = tagUidError st \<and>
           toasts st' = toasts st @ [(''success'', ''Tag geschrieben.'')]"
  using assms
  by (auto simp: claimAssignStep_def Let_def addToast_def split: option.splits)

lemma claimAssignStep_assign_failed:
  assumes "shouldAssign cl"
    and "request srv (SetTagMedia (currentUid cl) (scanMediaPath cl)) n = (Some mediaSet, n1)"
    and "ok mediaSet"
    and "request srv (AssignTag (currentUid cl) (selectedId cl)) n1 = (Some assigned, n2)"
    and "\<not> ok assigned"
  shows "\<exists>st'. claimAssignStep srv rnd now cl (st, n) = Inl (Returned (st', n2)) \<and>
           error st' = or_else (detail assigned) ''Zuordnung fehlgeschlagen.'' \<and>
           tagUidError st' = tagUidError st \<and>
           toasts st' = toasts st @ [(''success'', ''Tag geschrieben.''),
              (''error'', or_else (detail assigned) ''Zuordnung fehlgeschlagen.'')]"
  using assms
  by (auto simp: claimAssignStep_def Let_def addToast_def reportError_def split: option.splits)

lemma assignedStep_effect:
  assumes "selectedId cl \<noteq> ''''" and "activeNfcUnknown cl"
  shows "\<exists>st' n'. (assignedStep srv rnd now cl (st, n) = Inl (Thrown (st', n')) \<or>
                    assignedStep srv rnd now cl (st, n) = Inr (st', n')) \<and>
           sent n' = sent n @ (if currentUid cl = '''' then []
                               else [SendCommand (selectedId cl) ''nfc_on'' (Some (currentUid cl))]) \<and>
           error st' = error st \<and> tagUidError st' = tagUidError st \<and>
           toasts st' = toasts st @ [(''success'', ''Tag zugeordnet.'')]"
proof -
  let ?c = "handlePlayerCommand srv rnd now cl ''nfc_on'' (Some (currentUid cl))
              (addToast ''success'' ''Tag zugeordnet.'' st, n)"
  obtain st3 n3 where p: "outcome ?c = (st3, n3)"
    by (cases "outcome ?c") simp
  have t: "trim (currentUid cl) = currentUid cl"
    by (simp add: currentUid_def trim_trim)
  from handlePlayerCommand_nfc_on [OF assms(1) p] t
  have q: "sent n3 = sent n @ (if currentUid cl = '''' then []
                               else [SendCommand (selectedId cl) ''nfc_on'' (Some (currentUid cl))])"
    "toasts st3 = toasts st @ [(''success'', ''Tag zugeordnet.'')]"
    "error st3 = error st" "tagUidError st3 = tagUidError st"
    by (simp_all add: addToast_def)
  show ?thesis
  proof (cases ?c)
    case (Thrown w)
    with p have "w = (st3, n3)" by (simp add: outcome_def)
    with Thrown assms(2) have "assignedStep srv rnd now cl (st, n) = Inl (Thrown (st3, n3))"
      by (simp add: assignedStep_def)
    with q show ?thesis by blast
  next
    case (Returned w)
    with p have "w = (st3, n3)" by (simp add: outcome_def)
    with Returned assms(2) have "assignedStep srv rnd now cl (st, n) =
        Inr (st3\<lparr>scanTagUid := '''', scanTagLabel := '''', scanMediaPath := '''',
                  simulatedNfc := None, lastHardwareUid := emptyHardware\<rparr>, n3)"
      by (simp add: assignedStep_def)
    moreover have "error (st3\<lparr>scanTagUid := '''', scanTagLabel := '''', scanMediaPath := '''',
                  simulatedNfc := None, lastHardwareUid := emptyHardware\<rparr>) = error st"
      "tagUidError (st3\<lparr>scanTagUid := '''', scanTagLabel := '''', scanMediaPath := '''',
                  simulatedNfc := None, lastHardwareUid := emptyHardware\<rparr>) = tagUidError st"
      "toasts (st3\<lparr>scanTagUid := '''', scanTagLabel := '''', scanMediaPath := '''',
                  simulatedNfc := None, lastHardwareUid := emptyHardware\<rparr>) =
         toasts st @ [(''success'', ''Tag zugeordnet.'')]"
      using q by simp_all
    ultimately show ?thesis using q(1) by blast
  qed
qed

lemma claimAssignStep_assigned:
  assumes "shouldAssign cl"
    and "request srv (SetTagMedia (currentUid cl) (scanMediaPath cl)) n = (Some mediaSet, n1)"
    and "ok mediaSet"
    and "request srv (AssignTag (currentUid cl) (selectedId cl)) n1 = (Some assigned, n2)"
    and "ok assigned"
  shows "\<exists>st' n3. (claimAssignStep srv rnd now cl (st, n) = Inl (Thrown (st', n3)) \<or>
                    claimAssignStep srv rnd now cl (st, n) = Inr (st', n3)) \<and>
           sent n3 = sent n2 @ (if currentUid cl = '''' then []
                                else [SendCommand (selectedId cl) ''nfc_on'' (Some (currentUid cl))]) \<and>
           error st' = '''' \<and> tagUidError st' = tagUidError st \<and>
           toasts st' = toasts st @ [(''success'', ''Tag geschrieben.''), (''success'', ''Tag zugeordnet.'')]"
proof -
  from assms(1) have sel: "selectedId cl \<noteq> ''''" and act: "activeNfcUnknown cl"
    by (simp_all add: shouldAssign_def lastNfcUnknown_active)
  let ?st1 = "addToast ''success'' ''Tag geschrieben.'' (st\<lparr>error := ''''\<rparr>)"
  let ?st2 = "case activeNfc cl of None \<Rightarrow> ?st1 | Some e \<Rightarrow> ?st1\<lparr>dismissedNfcKey := getNfcKey (Some e)\<rparr>"
  have e: "claimAssignStep srv rnd now cl (st, n) = assignedStep srv rnd now cl (?st2, n2)"
    using assms by (simp add: claimAssignStep_def Let_def)
  have f: "toasts ?st2 = toasts st @ [(''success'', ''Tag geschrieben.'')]"
    "error ?st2 = ''''" "tagUidError ?st2 = tagUidError st"
    by (simp_all add: addToast_def split: option.splits)
  from assignedStep_effect [OF sel act, of srv rnd now ?st2 n2] show ?thesis
    unfolding e f by simp
qed

text \<open>
  The outcomes of a commit whose write part has succeeded and whose assignment is due:
  \<open>setTagMedia\<close> throws or is refused, \<open>assignTag\<close> throws or is refused, both are accepted.
\<close>

lemma commit_media_thrown:
  assumes "claimWriteStep srv st (st\<lparr>tagUidError := ''''\<rparr>, n) = Inr (st1, n1)"
    and "shouldAssign st"
    and "request srv (SetTagMedia (currentUid st) (scanMediaPath st)) n1 = (None, n2)"
    and "outcome (handleClaimTagForScan srv rnd now (st, n)) = (st', n')"
  shows "n' = n2 \<and> sent n' = sent n1 @ [SetTagMedia (currentUid st) (scanMediaPath st)] \<and>
         error st' = '''' \<and> tagUidError st' = tagUidError st1 \<and>
         toasts st' = toasts st1 @ [(''success'', ''Tag geschrieben.'')]"
proof -
  from claimAssignStep_media_thrown [OF assms(2,3), of rnd now st1] obtain st2 where
    a: "claimAssignStep srv rnd now st (st1, n1) = Inl (Thrown (st2, n2))"
      "error st2 = ''''" "tagUidError st2 = tagUidError st1"
      "toasts st2 = toasts st1 @ [(''success'', ''Tag geschrieben.'')]"
    by blast
  from assms(4,1) a(1) have e: "st' = st2" "n' = n2"
    by (simp_all add: handleClaimTagForScan_def outcome_def)
  with a request_sent [OF assms(3)] show ?thesis by simp
qed

lemma commit_media_refused:
  assumes "claimWriteStep srv st (st\<lparr>tagUidError := ''''\<rparr>, n) = Inr (st1, n1)"
    and "shouldAssign st"
    and "request srv (SetTagMedia (currentUid st) (scanMediaPath st)) n1 = (Some mediaSet, n2)"
    and "\<not> ok mediaSet"
    and "outcome (handleClaimTagForScan srv rnd now (st, n)) = (st', n')"
  shows "n' = n2 \<and> sent n' = sent n1 @ [SetTagMedia (currentUid st) (scanMediaPath st)] \<and>
         error st' = or_else (detail mediaSet) ''Medium setzen fehlgeschlagen.'' \<and>
         tagUidError st' = tagUidError st1 \<and>
         toasts st' = toasts st1 @ [(''success'', ''Tag geschrieben.''),
            (''error'', or_else (detail mediaSet) ''Medium setzen fehlgeschlagen.'')]"
proof -
  from claimAssignStep_media_failed [OF assms(2,3,4), of rnd now st1] obtain st2 where
    a: "claimAssignStep srv rnd now st (st1, n1) = Inl (Returned (st2, n2))"
      "error st2 = or_else (detail mediaSet) ''Medium setzen fehlgeschlagen.''"
      "tagUidError st2 = tagUidError st1"
      "toasts st2 = toasts st1 @ [(''success'', ''Tag geschrieben.''),
              (''error'', or_else (detail mediaSet) ''Medium setzen fehlgeschlagen.'')]"
    by blast
  from assms(5,1) a(1) have e: "st' = st2" "n' = n2"
    by (simp_all add: handleClaimTagForScan_def outcome_def)
  with a request_sent [OF assms(3)] show ?thesis by simp
qed

lemma commit_assign_thrown:
  assumes "claimWriteStep srv st (st\<lparr>tagUidError := ''''\<rparr>, n) = Inr (st1, n1)"
    and "shouldAssign st"
    and "request srv (SetTagMedia (currentUid st) (scanMediaPath st)) n1 = (Some mediaSet, n2)"
    and "ok mediaSet"
    and "request srv (AssignTag (currentUid st) (selectedId st)) n2 = (None, n3)"
    and "outcome (handleClaimTagForScan srv rnd now (st, n)) = (st', n')"
  shows "n' = n3 \<and>
         sent n' = sent n1 @ [SetTagMedia (currentUid st) (scanMediaPath st),
                              AssignTag (currentUid st) (selectedId st)] \<and>
         error st' = '''' \<and> tagUidError st' = tagUidError st1 \<and>
         toasts st' = toasts st1 @ [(''success'', ''Tag geschrieben.'')]"
proof -
  from claimAssignStep_assign_thrown [OF assms(2,3,4,5), of rnd now st1] obtain st2 where
    a: "claimAssignStep srv rnd now st (st1, n1) = Inl (Thrown (st2, n3))"
      "error st2 = ''''" "tagUidError st2 = tagUidError st1"
      "toasts st2 = toasts st1 @ [(''success'', ''Tag geschrieben.'')]"
    by blast
  from assms(6,1) a(1) have e: "st' = st2" "n' = n3"
    by (simp_all add: handleClaimTagForScan_def outcome_def)
  with a request_sent [OF assms(3)] request_sent [OF assms(5)] show ?thesis by simp
qed

lemma commit_assign_refused:
  assumes "claimWriteStep srv st (st\<lparr>tagUidError := ''''\<rparr>, n) = Inr (st1, n1)"
    and "shouldAssign st"
    and "request srv (SetTagMedia (currentUid st) (scanMediaPath st)) n1 = (Some mediaSet, n2)"
    and "ok mediaSet"
    and "request srv (AssignTag (currentUid st) (selectedId st)) n2 = (Some assigned, n3)"
    and "\<not> ok assigned"
    and "outcome (handleClaimTagForScan srv rnd now (st, n)) = (st', n')"
  shows "n' = n3 \<and>
         sent n' = sent n1 @ [SetTagMedia (currentUid st) (scanMediaPath st),
                              AssignTag (currentUid st) (selectedId st)] \<and>
         error st' = or_else (detail assigned) ''Zuordnung fehlgeschlagen.'' \<and>
         tagUidError st' = tagUidError st1 \<and>
         toasts st' = toasts st1 @ [(''success'', ''Tag geschrieben.''),
            (''error'', or_else (detail assigned) ''Zuordnung fehlgeschlagen.'')]"
proof -
  from claimAssignStep_assign_failed [OF assms(2,3,4,5,6), of rnd now st1] obtain st2 where
    a: "claimAssignStep srv rnd now st (st1, n1) = Inl (Returned (st2, n3))"
      "error st2 = or_else (detail assigned) ''Zuordnung fehlgeschlagen.''"
      "tagUidError st2 = tagUidError st1"
      "toasts st2 = toasts st1 @ [(''success'', ''Tag geschrieben.''),
              (''error'', or_else (detail assigned) ''Zuordnung fehlgeschlagen.'')]"
    by blast
  from assms(7,1) a(1) have e: "st' = st2" "n' = n3"
    by (simp_all add: handleClaimTagForScan_def outcome_def)
  with a request_sent [OF assms(3)] request_sent [OF assms(5)] show ?thesis by simp
qed

lemma commit_assigned:
  assumes "claimWriteStep srv st (st\<lparr>tagUidError := ''''\<rparr>, n) = Inr (st1, n1)"
    and "shouldAssign st"
    and "request srv (SetTagMedia (currentUid st) (scanMediaPath st)) n1 = (Some mediaSet, n2)"
    and "ok mediaSet"
    and "request srv (AssignTag (currentUid st) (selectedId st)) n2 = (Some assigned, n3)"
    and "ok assigned"
    and "outcome (handleClaimTagForScan srv rnd now (st, n)) = (st', n')"
  shows "\<exists>rs. sent n' = sent n1 @ [SetTagMedia (currentUid st) (scanMediaPath st),
                                    AssignTag (currentUid st) (selectedId st)] @
                  (if currentUid st = '''' then []
                   else [SendCommand (selectedId st) ''nfc_on'' (Some (currentUid st))]) @ rs \<and>
              set rs \<subseteq> {GetTags, GetBoxTags (selectedId st)} \<and>
              error st' = '''' \<and> tagUidError st' = tagUidError st1 \<and>
              toasts st' = toasts st1 @ [(''success'', ''Tag geschrieben.''), (''success'', ''Tag zugeordnet.'')]"
proof -
  from claimAssignStep_assigned [OF assms(2,3,4,5,6), of rnd now st1] obtain st2 n4 where
    a: "claimAssignStep srv rnd now st (st1, n1) = Inl (Thrown (st2, n4)) \<or>
        claimAssignStep srv rnd now st (st1, n1) = Inr (st2, n4)"
      "sent n4 = sent n3 @ (if currentUid st = '''' then []
                            else [SendCommand (selectedId st) ''nfc_on'' (Some (currentUid st))])"
      "error st2 = ''''" "tagUidError st2 = tagUidError st1"
      "toasts st2 = toasts st1 @ [(''success'', ''Tag geschrieben.''), (''success'', ''Tag zugeordnet.'')]"
    by blast
  note sm = request_sent [OF assms(3)] and sg = request_sent [OF assms(5)]
  from a(1) show ?thesis
  proof
    assume "claimAssignStep srv rnd now st (st1, n1) = Inl (Thrown (st2, n4))"
    with assms(7,1) have "st' = st2" "n' = n4"
      by (simp_all add: handleClaimTagForScan_def outcome_def)
    with a sm sg show ?thesis by simp
  next
    assume "claimAssignStep srv rnd now st (st1, n1) = Inr (st2, n4)"
    with assms(7,1) have "outcome (claimRefreshStep srv st (st2, n4)) = (st', n')"
      by (simp add: handleClaimTagForScan_def)
    from claimRefreshStep_effect [OF this] a sm sg show ?thesis by auto
  qed
qed

lemmas story_defs = story_def initialApp_def idle_def feed_def story_event_def written_tag_def
lemmas commit_defs = handleClaimTagForScan_def claimWriteStep_def claimAssignStep_def assignedStep_def
     claimRefreshStep_def request_def refusing_def failing_def okReply_def outcome_def
     currentUid_def trim_def js_space_def
     shouldAssign_def lastNfcUnknown_def activeNfcUnknown_def activeNfc_def
     handlePlayerCommand_def addToast_def reportError_def or_else_def Let_def

text \<open>
  Claim C4. When a tag with the working uid exists and its status is not \<open>NEW\<close>, the
  commit makes no call that claims a tag or marks one written, and its first report is
  the success toast of the write; no uid error is set. When no assignment is due, the
  commit only re-reads the tag lists (the tags of the box unless the first read throws),
  reports no error and leaves the error cell empty.
\<close>

theorem commit_written_tag_noop:
  assumes "find (\<lambda>t. tag_uid t = currentUid st) (tags st) = Some t" and "tag_status t \<noteq> NEW"
    and "outcome (handleClaimTagForScan srv rnd now (st, n)) = (st', n')"
  shows "\<exists>cs ts. sent n' = sent n @ cs \<and> (\<forall>c\<in>set cs. \<not> status_changing c) \<and>
           toasts st' = toasts st @ (''success'', ''Tag geschrieben.'') # ts \<and>
           tagUidError st' = '''' \<and>
           (\<not> shouldAssign st \<longrightarrow> error st' = '''' \<and> (\<forall>t\<in>set ts. fst t = ''success'') \<and>
              cs = GetTags # (if selectedId st = '''' \<or> fst (request srv GetTags n) = None then []
                              else [GetBoxTags (selectedId st)]))"
proof -
  let ?st0 = "st\<lparr>tagUidError := ''''\<rparr>"
  have w: "claimWriteStep srv st (?st0, n) = Inr (?st0, n)"
    using assms(1,2) by (rule claimWriteStep_existing)
  have nsc: "\<not> status_changing (SetTagMedia (currentUid st) (scanMediaPath st))"
    "\<not> status_changing (AssignTag (currentUid st) (selectedId st))"
    "\<not> status_changing (SendCommand (selectedId st) ''nfc_on'' (Some (currentUid st)))"
    by simp_all
  show ?thesis
  proof (cases "shouldAssign st")
    case False
    from claimAssignStep_skip [OF False, of srv rnd now ?st0 n] obtain st2 ts where
      a: "claimAssignStep srv rnd now st (?st0, n) = Inr (st2, n)" "error st2 = ''''"
        "tagUidError st2 = tagUidError ?st0"
        "toasts st2 = toasts ?st0 @ (''success'', ''Tag geschrieben.'') # ts"
        "\<forall>t\<in>set ts. fst t = ''success''"
      by blast
    from assms(3) w a(1) have "outcome (claimRefreshStep srv st (st2, n)) = (st', n')"
      by (simp add: handleClaimTagForScan_def)
    from claimRefreshStep_effect [OF this] a False show ?thesis by simp
  next
    case True
    let ?media = "SetTagMedia (currentUid st) (scanMediaPath st)"
    let ?assign = "AssignTag (currentUid st) (selectedId st)"
    obtain mediaAnswer n1 where
      m: "request srv ?media n = (mediaAnswer, n1)"
      by (cases "request srv ?media n") simp
    obtain assignAnswer n2 where
      g: "request srv ?assign n1 = (assignAnswer, n2)"
      by (cases "request srv ?assign n1") simp
    have "\<exists>cs ts. sent n' = sent n @ cs \<and> (\<forall>c\<in>set cs. \<not> status_changing c) \<and>
           toasts st' = toasts st @ (''success'', ''Tag geschrieben.'') # ts \<and> tagUidError st' = ''''"
    proof (cases mediaAnswer)
      case None
      from commit_media_thrown [OF w True m [unfolded None] assms(3)]
      have "sent n' = sent n @ [?media]" "toasts st' = toasts st @ (''success'', ''Tag geschrieben.'') # []"
        "tagUidError st' = ''''"
        by auto
      with nsc show ?thesis by (intro exI [of _ "[?media]"] exI [of _ "[]"]) simp
    next
      case mediaSome: (Some mediaSet)
      note m' = m [unfolded mediaSome]
      show ?thesis
      proof (cases "ok mediaSet")
        case False
        from commit_media_refused [OF w True m' False assms(3)]
        have "sent n' = sent n @ [?media]"
          "toasts st' = toasts st @ (''success'', ''Tag geschrieben.'') #
             [(''error'', or_else (detail mediaSet) ''Medium setzen fehlgeschlagen.'')]"
          "tagUidError st' = ''''"
          by auto
        with nsc show ?thesis
          by (intro exI [of _ "[?media]"]
              exI [of _ "[(''error'', or_else (detail mediaSet) ''Medium setzen fehlgeschlagen.'')]"]) simp
      next
        case mediaOk: True
        show ?thesis
        proof (cases assignAnswer)
          case None
          from commit_assign_thrown [OF w True m' mediaOk g [unfolded None] assms(3)]
          have "sent n' = sent n @ [?media, ?assign]"
            "toasts st' = toasts st @ (''success'', ''Tag geschrieben.'') # []"
            "tagUidError st' = ''''"
            by auto
          with nsc show ?thesis by (intro exI [of _ "[?media, ?assign]"] exI [of _ "[]"]) simp
        next
          case assignSome: (Some assigned)
          note g' = g [unfolded assignSome]
          show ?thesis
          proof (cases "ok assigned")
            case False
            from commit_assign_refused [OF w True m' mediaOk g' False assms(3)]
            have "sent n' = sent n @ [?media, ?assign]"
              "toasts st' = toasts st @ (''success'', ''Tag geschrieben.'') #
                 [(''error'', or_else (detail assigned) ''Zuordnung fehlgeschlagen.'')]"
              "tagUidError st' = ''''"
              by auto
            with nsc show ?thesis
              by (intro exI [of _ "[?media, ?assign]"]
                  exI [of _ "[(''error'', or_else (detail assigned) ''Zuordnung fehlgeschlagen.'')]"]) simp
          next
            case assignOk: True
            from commit_assigned [OF w True m' mediaOk g' assignOk assms(3)] obtain rs where
              r: "sent n' = sent n @ [?media, ?assign] @
                  (if currentUid st = '''' then []
                   else [SendCommand (selectedId st) ''nfc_on'' (Some (currentUid st))]) @ rs"
                "set rs \<subseteq> {GetTags, GetBoxTags (selectedId st)}"
                "tagUidError st' = tagUidError ?st0"
                "toasts st' = toasts ?st0 @ [(''success'', ''Tag geschrieben.''), (''success'', ''Tag zugeordnet.'')]"
              by blast
            from r(2) have q: "\<forall>c\<in>set rs. \<not> status_changing c" by auto
            let ?cs = "[?media, ?assign] @
                  (if currentUid st = '''' then []
                   else [SendCommand (selectedId st) ''nfc_on'' (Some (currentUid st))]) @ rs"
            from q have "\<forall>c\<in>set ?cs. \<not> status_changing c" by simp
            moreover from r(1) have "sent n' = sent n @ ?cs" by simp
            moreover from r(4) have "toasts st' = toasts st @ (''success'', ''Tag geschrieben.'') #
                [(''success'', ''Tag zugeordnet.'')]" by simp
            moreover from r(3) have "tagUidError st' = ''''" by simp
            ultimately show ?thesis by blast
          qed
        qed
      qed
    qed
    with True show ?thesis by blast
  qed
qed

theorem commit_written_tag_noop_witness:
  "\<not> list_ex status_changing
       (sent (snd (outcome (handleClaimTagForScan (refusing (\<lambda>c. False)) (\<lambda>i. 0) 99
                     (story\<lparr>tags := [written_tag]\<rparr>, idle))))) \<and>
   hd (toasts (fst (outcome (handleClaimTagForScan (refusing (\<lambda>c. False)) (\<lambda>i. 0) 99
                     (story\<lparr>tags := [written_tag]\<rparr>, idle))))) = (''success'', ''Tag geschrieben.'')"
proof -
  let ?st = "story\<lparr>tags := [written_tag]\<rparr>"
  let ?out = "outcome (handleClaimTagForScan (refusing (\<lambda>c. False)) (\<lambda>i. 0) 99 (?st, idle))"
  have f: "find (\<lambda>t. tag_uid t = currentUid ?st) (tags ?st) = Some written_tag"
    by (simp add: story_defs currentUid_def trim_def js_space_def)
  have s: "tag_status written_tag \<noteq> NEW"
    by (simp add: written_tag_def)
  have h: "?out = (fst ?out, snd ?out)" by simp
  from commit_written_tag_noop [OF f s h] obtain cs ts where
    "sent (snd ?out) = sent idle @ cs" "\<forall>c\<in>set cs. \<not> status_changing c"
    "toasts (fst ?out) = toasts ?st @ (''success'', ''Tag geschrieben.'') # ts"
    by blast
  moreover have "sent idle = []" "toasts ?st = []"
    by (simp_all add: story_defs)
  ultimately show ?thesis by (simp add: list_ex_iff)
qed




text \<open>
  The command is also sent for an event that carried a physical uid: box \<open>box-42\<close>
  reports the unknown tag \<open>zz99zz99zz\<close>, every call is accepted, and \<open>nfc_on\<close> follows the
  assignment.
\<close>

theorem commit_nfc_on_physical_uid_counterexample:
  "nfc_uid story_event = ''zz99zz99zz'' \<and>
   activeNfc story = Some (story_event\<lparr>nfc_at := Some 7\<rparr>) \<and>
   sent (snd (outcome (handleClaimTagForScan (refusing (\<lambda>c. False)) (\<lambda>i. 0) 99 (story, idle)))) =
     [ClaimTag ''zz99zz99zz'' ''Story Time'', SetTagMedia ''zz99zz99zz'' ''audiobooks/grimm'',
      AssignTag ''zz99zz99zz'' ''box-42'', SendCommand ''box-42'' ''nfc_on'' (Some ''zz99zz99zz''),
      GetTags, GetBoxTags ''box-42'']"
  by (simp add: story_defs commit_defs)

lemma not_status_changing_SendCommand: "(\<forall>c\<in>set ws. status_changing c) \<Longrightarrow> SendCommand box c p \<notin> set ws"
  by auto

text \<open>
  Claim C6, as amended. During a commit the command \<open>nfc_on\<close> is sent, to the selected box
  and with the working uid, exactly when the assignment sub-step succeeded and the
  working uid is not empty. The assignment sub-step runs only for an unknown event of the
  status feed; whether that event carried a physical uid plays no part.
\<close>

theorem commit_nfc_on_sent_iff:
  assumes "outcome (handleClaimTagForScan srv rnd now (st, n)) = (st', n')"
  shows "\<exists>cs. sent n' = sent n @ cs \<and>
           (\<forall>box c p. SendCommand box c p \<in> set cs \<longleftrightarrow>
              assignmentSucceeded srv st n \<and> currentUid st \<noteq> '''' \<and>
              box = selectedId st \<and> c = ''nfc_on'' \<and> p = Some (currentUid st))"
proof (cases "claimWriteStep srv st (st\<lparr>tagUidError := ''''\<rparr>, n)")
  case (Inl e)
  from assms Inl have o: "outcome e = (st', n')" by (simp add: handleClaimTagForScan_def)
  from claimWriteStep_ended [OF Inl o] obtain ws where
    ws: "sent n' = sent n @ ws" "\<forall>c\<in>set ws. status_changing c"
    by blast
  have nsucc: "\<not> assignmentSucceeded srv st n" by (simp add: assignmentSucceeded_def Inl)
  have "\<forall>box c p. SendCommand box c p \<notin> set ws"
    using not_status_changing_SendCommand [OF ws(2)] by simp
  with ws(1) nsucc show ?thesis by (intro exI [of _ ws]) simp
next
  case (Inr w1)
  obtain st1 n1 where w1: "w1 = (st1, n1)" by (cases w1)
  with Inr have w: "claimWriteStep srv st (st\<lparr>tagUidError := ''''\<rparr>, n) = Inr (st1, n1)" by simp
  from claimWriteStep_passed [OF w] obtain ws where
    ws: "sent n1 = sent n @ ws" "\<forall>c\<in>set ws. status_changing c"
    by blast
  note no = not_status_changing_SendCommand [OF ws(2)]
  obtain mediaAnswer n2 where
    m: "request srv (SetTagMedia (currentUid st) (scanMediaPath st)) n1 = (mediaAnswer, n2)"
    by (cases "request srv (SetTagMedia (currentUid st) (scanMediaPath st)) n1") simp
  obtain assignAnswer n3 where
    g: "request srv (AssignTag (currentUid st) (selectedId st)) n2 = (assignAnswer, n3)"
    by (cases "request srv (AssignTag (currentUid st) (selectedId st)) n2") simp
  have succ: "assignmentSucceeded srv st n \<longleftrightarrow>
      shouldAssign st \<and> (\<exists>mediaSet assigned. mediaAnswer = Some mediaSet \<and> ok mediaSet \<and>
         assignAnswer = Some assigned \<and> ok assigned)"
    by (auto simp: assignmentSucceeded_def w m g split: option.splits)
  show ?thesis
  proof (cases "shouldAssign st")
    case False
    from claimAssignStep_skip [OF False, of srv rnd now st1 n1] obtain st2 where
      a: "claimAssignStep srv rnd now st (st1, n1) = Inr (st2, n1)"
      by blast
    from assms w a have "outcome (claimRefreshStep srv st (st2, n1)) = (st', n')"
      by (simp add: handleClaimTagForScan_def)
    from claimRefreshStep_effect [OF this] ws(1)
    have e: "sent n' = sent n @ (ws @ GetTags #
           (if selectedId st = '''' \<or> fst (request srv GetTags n1) = None then []
            else [GetBoxTags (selectedId st)]))"
      by simp
    from False succ have nsucc: "\<not> assignmentSucceeded srv st n" by blast
    have "\<forall>box c p. SendCommand box c p \<notin> set (ws @ GetTags #
           (if selectedId st = '''' \<or> fst (request srv GetTags n1) = None then []
            else [GetBoxTags (selectedId st)]))"
      using no by simp
    with e nsucc show ?thesis
      by (intro exI [of _ "ws @ GetTags #
           (if selectedId st = '''' \<or> fst (request srv GetTags n1) = None then []
            else [GetBoxTags (selectedId st)])"]) simp
  next
    case True
    let ?media = "SetTagMedia (currentUid st) (scanMediaPath st)"
    let ?assign = "AssignTag (currentUid st) (selectedId st)"
    show ?thesis
    proof (cases "\<exists>mediaSet assigned. mediaAnswer = Some mediaSet \<and> ok mediaSet \<and>
         assignAnswer = Some assigned \<and> ok assigned")
      case False
      have "sent n' = sent n1 @ [?media] \<or> sent n' = sent n1 @ [?media, ?assign]"
      proof (cases mediaAnswer)
        case None
        from commit_media_thrown [OF w True m [unfolded None] assms] show ?thesis by auto
      next
        case mediaSome: (Some mediaSet)
        note m' = m [unfolded mediaSome]
        show ?thesis
        proof (cases "ok mediaSet")
          case False
          from commit_media_refused [OF w True m' False assms] show ?thesis by auto
        next
          case mediaOk: True
          show ?thesis
          proof (cases assignAnswer)
            case None
            from commit_assign_thrown [OF w True m' mediaOk g [unfolded None] assms]
            show ?thesis by auto
          next
            case assignSome: (Some assigned)
            with False mediaSome mediaOk have f: "\<not> ok assigned" by simp
            from commit_assign_refused [OF w True m' mediaOk g [unfolded assignSome] f assms]
            show ?thesis by auto
          qed
        qed
      qed
      then have d: "sent n' = sent n @ (ws @ [?media]) \<or> sent n' = sent n @ (ws @ [?media, ?assign])"
        using ws(1) by auto
      from False succ have nsucc: "\<not> assignmentSucceeded srv st n" by blast
      from d show ?thesis
      proof
        assume e: "sent n' = sent n @ (ws @ [?media])"
        have "\<forall>box c p. SendCommand box c p \<notin> set (ws @ [?media])" using no by simp
        with e nsucc show ?thesis by (intro exI [of _ "ws @ [?media]"]) simp
      next
        assume e: "sent n' = sent n @ (ws @ [?media, ?assign])"
        have "\<forall>box c p. SendCommand box c p \<notin> set (ws @ [?media, ?assign])" using no by simp
        with e nsucc show ?thesis by (intro exI [of _ "ws @ [?media, ?assign]"]) simp
      qed
    next
      case ok: True
      then obtain mediaSet assigned where
        mo: "mediaAnswer = Some mediaSet" "ok mediaSet" and go: "assignAnswer = Some assigned" "ok assigned"
        by blast
      from commit_assigned [OF w True m [unfolded mo(1)] mo(2) g [unfolded go(1)] go(2) assms]
      obtain rs where
        r: "sent n' = sent n1 @ [?media, ?assign] @
              (if currentUid st = '''' then []
               else [SendCommand (selectedId st) ''nfc_on'' (Some (currentUid st))]) @ rs"
          "set rs \<subseteq> {GetTags, GetBoxTags (selectedId st)}"
        by blast
      from r(2) have nr: "\<And>box c p. SendCommand box c p \<notin> set rs" by auto
      let ?cs = "ws @ [?media, ?assign] @
              (if currentUid st = '''' then []
               else [SendCommand (selectedId st) ''nfc_on'' (Some (currentUid st))]) @ rs"
      from r(1) ws(1) have e: "sent n' = sent n @ ?cs"
        by simp
      from ok True succ have sa: "assignmentSucceeded srv st n" by blast
      have "\<forall>box c p. SendCommand box c p \<in> set ?cs \<longleftrightarrow>
              currentUid st \<noteq> '''' \<and> box = selectedId st \<and> c = ''nfc_on'' \<and> p = Some (currentUid st)"
        using no nr by auto
      with e sa show ?thesis by (intro exI [of _ ?cs]) simp
    qed
  qed
qed

theorem commit_nfc_on_sent_iff_witness:
  "SendCommand ''box-42'' ''nfc_on'' (Some ''zz99zz99zz'')
     \<notin> set (sent (snd (outcome (handleClaimTagForScan (refusing (\<lambda>c. c = AssignTag ''zz99zz99zz'' ''box-42''))
                          (\<lambda>i. 0) 99 (story, idle)))))"
proof -
  let ?srv = "refusing (\<lambda>c. c = AssignTag ''zz99zz99zz'' ''box-42'')"
  let ?out = "outcome (handleClaimTagForScan ?srv (\<lambda>i. 0) 99 (story, idle))"
  have h: "?out = (fst ?out, snd ?out)" by simp
  have a: "\<not> assignmentSucceeded ?srv story idle"
    by (simp add: assignmentSucceeded_def story_defs commit_defs)
  from commit_nfc_on_sent_iff [OF h] obtain cs where
    "sent (snd ?out) = sent idle @ cs"
    "\<forall>box c p. SendCommand box c p \<in> set cs \<longleftrightarrow>
        assignmentSucceeded ?srv story idle \<and> currentUid story \<noteq> '''' \<and>
        box = selectedId story \<and> c = ''nfc_on'' \<and> p = Some (currentUid story)"
    by blast
  with a show ?thesis by (simp add: idle_def)
qed

section \<open>Properties of session recovery\<close>

lemma sessionData_lookup:
  "get_prop (sessionData st) ''scanTagUid'' = Some (JStr (scanTagUid st))"
  "get_prop (sessionData st) ''scanTagLabel'' = Some (JStr (scanTagLabel st))"
  "get_prop (sessionData st) ''scanMediaPath'' = Some (JStr (scanMediaPath st))"
  "get_prop (sessionData st) ''tagUidMode'' = Some (JStr (tagUidMode st))"
  "get_prop (sessionData st) ''tagStep'' = Some (JNum (tagStep st))"
  "get_prop (sessionData st) ''tagStepOneDone'' = Some (JBool (tagStepOneDone st))"
  "get_prop (sessionData st) ''tagStepTwoDone'' = Some (JBool (tagStepTwoDone st))"
  "get_prop (sessionData st) ''tagStepMax'' = Some (JNum (tagStepMax st))"
  "get_prop (sessionData st) ''tagUidError'' = Some (JStr (tagUidError st))"
  "get_prop (sessionData st) ''lastHardwareUid'' = Some (hardware_json (lastHardwareUid st))"
  "get_prop (sessionData st) ''simulatedNfc'' =
     Some (case simulatedNfc st of None \<Rightarrow> JNull | Some e \<Rightarrow> nfc_json e)"
  "get_prop (sessionData st) ''dismissedNfcKey'' = Some (JStr (dismissedNfcKey st))"
  by (simp_all add: sessionData_def get_prop_def)

lemma sessionPayload_lookup:
  "get_prop (sessionPayload st) ''key'' = Some (JStr (activeNfcKey st))"
  "get_prop (sessionPayload st) ''data'' = Some (sessionData st)"
  "truthy (Some (sessionPayload st))" "truthy (Some (sessionData st))"
  by (simp_all add: sessionPayload_def sessionData_def get_prop_def)

lemma restoreEffect_other_key:
  assumes "sto ''klangkiste_tag_wizard'' = Some (Some (sessionPayload st))"
    and "activeNfcKey cur \<noteq> activeNfcKey st"
  shows "restoreEffect sto cur = cur"
  using assms by (simp add: restoreEffect_def sessionPayload_lookup)

lemma restoreEffect_unfold:
  assumes "sto ''klangkiste_tag_wizard'' = Some (Some (sessionPayload st))"
    and "activeNfcKey cur = activeNfcKey st" "activeNfcKey st \<noteq> ''''"
    and "tagWizardRestoredRef cur \<noteq> activeNfcKey st"
  shows "restoreEffect sto cur =
     (restoreString (Some (JStr (dismissedNfcKey st))) (\<lambda>v x. x\<lparr>dismissedNfcKey := v\<rparr>)
       (restoreSimulatedNfc cur (Some (case simulatedNfc st of None \<Rightarrow> JNull | Some e \<Rightarrow> nfc_json e))
         (restoreLastHardwareUid (Some (hardware_json (lastHardwareUid st)))
           (cur\<lparr>scanTagUid := scanTagUid st, scanTagLabel := scanTagLabel st,
                scanMediaPath := scanMediaPath st, tagUidMode := tagUidMode st, tagStep := tagStep st,
                tagStepOneDone := tagStepOneDone st, tagStepTwoDone := tagStepTwoDone st,
                tagStepMax := tagStepMax st, tagUidError := tagUidError st\<rparr>))))
       \<lparr>tagWizardRestoredRef := activeNfcKey st\<rparr>"
proof -
  have "restoreEffect sto cur =
     (restoreString (Some (JStr (dismissedNfcKey st))) (\<lambda>v x. x\<lparr>dismissedNfcKey := v\<rparr>)
       (restoreSimulatedNfc cur (Some (case simulatedNfc st of None \<Rightarrow> JNull | Some e \<Rightarrow> nfc_json e))
         (restoreLastHardwareUid (Some (hardware_json (lastHardwareUid st)))
           (restoreString (Some (JStr (tagUidError st))) (\<lambda>v x. x\<lparr>tagUidError := v\<rparr>)
             (restoreNumber (Some (JNum (tagStepMax st))) (\<lambda>v x. x\<lparr>tagStepMax := v\<rparr>)
               ((restoreNumber (Some (JNum (tagStep st))) (\<lambda>v x. x\<lparr>tagStep := v\<rparr>)
                 (restoreString (Some (JStr (tagUidMode st))) (\<lambda>v x. x\<lparr>tagUidMode := v\<rparr>)
                   (restoreString (Some (JStr (scanMediaPath st))) (\<lambda>v x. x\<lparr>scanMediaPath := v\<rparr>)
                     (restoreString (Some (JStr (scanTagLabel st))) (\<lambda>v x. x\<lparr>scanTagLabel := v\<rparr>)
                       (restoreString (Some (JStr (scanTagUid st))) (\<lambda>v x. x\<lparr>scanTagUid := v\<rparr>) cur)))))
                 \<lparr>tagStepOneDone := tagStepOneDone st, tagStepTwoDone := tagStepTwoDone st\<rparr>))))))
       \<lparr>tagWizardRestoredRef := activeNfcKey st\<rparr>"
    using assms
    by (simp add: restoreEffect_def sessionPayload_lookup sessionData_lookup Let_def)
  then show ?thesis
    by (simp add: restoreString_def restoreNumber_def)
qed

lemma restore_tail_frame:
  fixes y :: app and d s h cl
  defines "x \<equiv> restoreString d (\<lambda>v x. x\<lparr>dismissedNfcKey := v\<rparr>)
                 (restoreSimulatedNfc cl s (restoreLastHardwareUid h y))"
  shows "scanTagUid x = scanTagUid y" "scanTagLabel x = scanTagLabel y"
    "scanMediaPath x = scanMediaPath y" "tagUidMode x = tagUidMode y" "tagStep x = tagStep y"
    "tagStepOneDone x = tagStepOneDone y" "tagStepTwoDone x = tagStepTwoDone y"
    "tagStepMax x = tagStepMax y" "tagUidError x = tagUidError y"
  unfolding x_def
  by (simp_all add: restoreString_def restoreSimulatedNfc_def restoreLastHardwareUid_def
      split: option.splits json.splits)

lemma persistEffect_stored:
  "activeNfcKey st \<noteq> '''' \<Longrightarrow>
     persistEffect True st sto ''klangkiste_tag_wizard'' = Some (Some (sessionPayload st))"
  by (simp add: persistEffect_def)

lemma restoreEffect_same_state:
  assumes "sto ''klangkiste_tag_wizard'' = Some (Some (sessionPayload st))"
  shows "scanTagUid (restoreEffect sto st) = scanTagUid st \<and>
         scanTagLabel (restoreEffect sto st) = scanTagLabel st \<and>
         scanMediaPath (restoreEffect sto st) = scanMediaPath st \<and>
         tagUidMode (restoreEffect sto st) = tagUidMode st \<and>
         tagStep (restoreEffect sto st) = tagStep st \<and>
         tagStepOneDone (restoreEffect sto st) = tagStepOneDone st \<and>
         tagStepTwoDone (restoreEffect sto st) = tagStepTwoDone st \<and>
         tagStepMax (restoreEffect sto st) = tagStepMax st \<and>
         tagUidError (restoreEffect sto st) = tagUidError st"
proof (cases "activeNfcKey st = '''' \<or> tagWizardRestoredRef st = activeNfcKey st")
  case True
  then have "restoreEffect sto st = st" by (auto simp: restoreEffect_def)
  then show ?thesis by simp
next
  case False
  then have k: "activeNfcKey st \<noteq> ''''" and r: "tagWizardRestoredRef st \<noteq> activeNfcKey st"
    by simp_all
  show ?thesis
    unfolding restoreEffect_unfold [where sto = sto, OF assms refl k r]
    by (simp add: restore_tail_frame)
qed

text \<open>
  Claim C7. A session persisted under a non-empty key \<open>K\<close> is reproduced by a restore
  that runs while \<open>K\<close> is the active key and has not been restored yet (as after a page
  load): working uid, label, media path, uid mode, current step, both completion flags,
  highest unlocked step and last validation error are exactly the persisted values.
  A restore under any other active key leaves the state as it is, and a restore in the
  state that was persisted leaves these values as they are.
\<close>

theorem session_round_trip:
  assumes "activeNfcKey st \<noteq> ''''"
  shows "(activeNfcKey cur = activeNfcKey st \<and> tagWizardRestoredRef cur \<noteq> activeNfcKey st \<longrightarrow>
            scanTagUid (restoreEffect (persistEffect True st sto) cur) = scanTagUid st \<and>
            scanTagLabel (restoreEffect (persistEffect True st sto) cur) = scanTagLabel st \<and>
            scanMediaPath (restoreEffect (persistEffect True st sto) cur) = scanMediaPath st \<and>
            tagUidMode (restoreEffect (persistEffect True st sto) cur) = tagUidMode st \<and>
            tagStep (restoreEffect (persistEffect True st sto) cur) = tagStep st \<and>
            tagStepOneDone (restoreEffect (persistEffect True st sto) cur) = tagStepOneDone st \<and>
            tagStepTwoDone (restoreEffect (persistEffect True st sto) cur) = tagStepTwoDone st \<and>
            tagStepMax (restoreEffect (persistEffect True st sto) cur) = tagStepMax st \<and>
            tagUidError (restoreEffect (persistEffect True st sto) cur) = tagUidError st \<and>
            tagWizardRestoredRef (restoreEffect (persistEffect True st sto) cur) = activeNfcKey st) \<and>
         (activeNfcKey cur \<noteq> activeNfcKey st \<longrightarrow>
            restoreEffect (persistEffect True st sto) cur = cur) \<and>
         (scanTagUid (restoreEffect (persistEffect True st sto) st) = scanTagUid st \<and>
          scanTagLabel (restoreEffect (persistEffect True st sto) st) = scanTagLabel st \<and>
          scanMediaPath (restoreEffect (persistEffect True st sto) st) = scanMediaPath st \<and>
          tagUidMode (restoreEffect (persistEffect True st sto) st) = tagUidMode st \<and>
          tagStep (restoreEffect (persistEffect True st sto) st) = tagStep st \<and>
          tagStepOneDone (restoreEffect (persistEffect True st sto) st) = tagStepOneDone st \<and>
          tagStepTwoDone (restoreEffect (persistEffect True st sto) st) = tagStepTwoDone st \<and>
          tagStepMax (restoreEffect (persistEffect True st sto) st) = tagStepMax st \<and>
          tagUidError (restoreEffect (persistEffect True st sto) st) = tagUidError st)"
proof -
  let ?sto = "persistEffect True st sto"
  have stored: "?sto ''klangkiste_tag_wizard'' = Some (Some (sessionPayload st))"
    using assms by (rule persistEffect_stored)
  have other: "restoreEffect ?sto cur = cur" if "activeNfcKey cur \<noteq> activeNfcKey st"
    using stored that by (rule restoreEffect_other_key)
  have same: "scanTagUid (restoreEffect ?sto cur) = scanTagUid st \<and>
            scanTagLabel (restoreEffect ?sto cur) = scanTagLabel st \<and>
            scanMediaPath (restoreEffect ?sto cur) = scanMediaPath st \<and>
            tagUidMode (restoreEffect ?sto cur) = tagUidMode st \<and>
            tagStep (restoreEffect ?sto cur) = tagStep st \<and>
            tagStepOneDone (restoreEffect ?sto cur) = tagStepOneDone st \<and>
            tagStepTwoDone (restoreEffect ?sto cur) = tagStepTwoDone st \<and>
            tagStepMax (restoreEffect ?sto cur) = tagStepMax st \<and>
            tagUidError (restoreEffect ?sto cur) = tagUidError st \<and>
            tagWizardRestoredRef (restoreEffect ?sto cur) = activeNfcKey st"
    if k: "activeNfcKey cur = activeNfcKey st" and r: "tagWizardRestoredRef cur \<noteq> activeNfcKey st"
    unfolding restoreEffect_unfold [where sto = "persistEffect True st sto", OF stored k assms r]
    by (simp add: restore_tail_frame)
  note self = restoreEffect_same_state [where sto = "persistEffect True st sto", OF stored]
  from other same self show ?thesis by blast
qed

theorem session_round_trip_witness:
  "activeNfcKey story = ''7:zz99zz99zz:04:A1:B2:C3'' \<and>
   tagStep (restoreEffect (persistEffect True story Map.empty)
              (initialApp\<lparr>selectedId := ''box-42'', status := Some (feed story_event 7)\<rparr>)) = 2 \<and>
   scanMediaPath (restoreEffect (persistEffect True story Map.empty)
              (initialApp\<lparr>selectedId := ''box-42'', status := Some (feed story_event 7)\<rparr>)) = ''audiobooks/grimm'' \<and>
   restoreEffect (persistEffect True story Map.empty)
              (initialApp\<lparr>selectedId := ''box-42'', status := Some (feed touch_first 1)\<rparr>)
     = initialApp\<lparr>selectedId := ''box-42'', status := Some (feed touch_first 1)\<rparr>"
proof -
  let ?cur = "initialApp\<lparr>selectedId := ''box-42'', status := Some (feed story_event 7)\<rparr>"
  let ?other = "initialApp\<lparr>selectedId := ''box-42'', status := Some (feed touch_first 1)\<rparr>"
  have k: "activeNfcKey story = ''7:zz99zz99zz:04:A1:B2:C3''"
    by (simp add: activeNfcKey_def activeNfc_def story_defs getNfcKey_def or_else_def num_str_def
        dec_digits.simps)
  have kc: "activeNfcKey ?cur = ''7:zz99zz99zz:04:A1:B2:C3''"
    by (simp add: activeNfcKey_def activeNfc_def story_defs getNfcKey_def or_else_def num_str_def
        dec_digits.simps)
  have ko: "activeNfcKey ?other = ''1:04:a1:b2''"
    by (simp add: activeNfcKey_def activeNfc_def story_defs touch_first_def getNfcKey_def or_else_def
        num_str_def dec_digits.simps)
  have r: "tagWizardRestoredRef ?cur = ''''"
    by (simp add: initialApp_def)
  have nz: "activeNfcKey story \<noteq> ''''" by (simp add: k)
  have v: "tagStep story = 2" "scanMediaPath story = ''audiobooks/grimm''"
    by (simp_all add: story_def)
  from session_round_trip [OF nz, of ?cur Map.empty] k kc r v
  have "tagStep (restoreEffect (persistEffect True story Map.empty) ?cur) = 2 \<and>
        scanMediaPath (restoreEffect (persistEffect True story Map.empty) ?cur) = ''audiobooks/grimm''"
    by simp
  moreover from session_round_trip [OF nz, of ?other Map.empty] k ko
  have "restoreEffect (persistEffect True story Map.empty) ?other = ?other"
    by simp
  ultimately show ?thesis using k by simp
qed

end
